theory Spec2Isabelle
  imports Complex_Main "HOL-Library.AList" "HOL-Library.Char_ord" "HOL-Library.List_Lexorder" "HOL-Library.Multiset" "HOL-Library.Sublist"
begin

section \<open>Schema widening (src/lib/transformers.js)\<close>

text \<open>
  SQL column types are the strings the source manipulates. \<open>typeHierarchy\<close> is the array
  literal of \<open>getWiderType\<close>; \<open>indexOf\<close> is \<open>Array.prototype.indexOf\<close>, which
  answers \<open>-1\<close> for a string that is not in the array.
\<close>

definition typeHierarchy :: "string list" where
  "typeHierarchy =
     [''BIT'', ''INT'', ''BIGINT'', ''FLOAT'',
      ''NVARCHAR(50)'', ''NVARCHAR(100)'', ''NVARCHAR(255)'', ''NVARCHAR(500)'',
      ''NVARCHAR(1000)'', ''NVARCHAR(4000)'', ''NVARCHAR(MAX)'', ''DATETIME2'']"

fun indexOf :: "'a list \<Rightarrow> 'a \<Rightarrow> int" where
  "indexOf [] x = -1"
| "indexOf (y # ys) x =
     (if y = x then 0 else (let i = indexOf ys x in if i < 0 then -1 else i + 1))"

definition isNumericType :: "string \<Rightarrow> bool" where
  "isNumericType t = (t \<in> set [''BIT'', ''INT'', ''BIGINT'', ''FLOAT''])"

definition getWiderType :: "string \<Rightarrow> string \<Rightarrow> string" where
  "getWiderType type1 type2 =
     (if type1 = type2 then type1
      else if type1 = ''NVARCHAR(MAX)'' \<or> type2 = ''NVARCHAR(MAX)'' then ''NVARCHAR(MAX)''
      else (let index1 = indexOf typeHierarchy type1;
                index2 = indexOf typeHierarchy type2;
                isNumeric1 = isNumericType type1;
                isNumeric2 = isNumericType type2
            in if isNumeric1 \<noteq> isNumeric2 then ''NVARCHAR(MAX)''
               else if index1 > index2 then type1 else type2))"

text \<open>
  What \<open>getWiderType\<close> does to the positions in \<open>typeHierarchy\<close>; used to reason about
  it without comparing strings.
\<close>

definition widenIndex :: "int \<Rightarrow> int \<Rightarrow> int" where
  "widenIndex i j =
     (if i = j then i else if i = 10 \<or> j = 10 then 10
      else if (i < 4) \<noteq> (j < 4) then 10 else max i j)"

section \<open>JavaScript values and JSON text\<close>

text \<open>
  A JavaScript number is an IEEE double. The source only asks a number whether it is
  finite, whether it is an integer and how it compares with two integer constants; all
  three are exact on doubles, so a finite number is modelled by the real it denotes.
\<close>

datatype jsnumber = Finite real | NaN | PosInfinity | NegInfinity

definition Number_isFinite :: "jsnumber \<Rightarrow> bool" where
  "Number_isFinite n = (case n of Finite _ \<Rightarrow> True | _ \<Rightarrow> False)"

definition Number_isInteger :: "real \<Rightarrow> bool" where
  "Number_isInteger r = (of_int \<lfloor>r\<rfloor> = r)"

text \<open>
  Plain values: what \<open>transformValue\<close> hands on and what \<open>JSON.stringify\<close> is applied
  to. An object is the list of its own properties in enumeration order.
\<close>

datatype jsval =
    JNull
  | JStr string
  | JNum real
  | JArr "jsval list"
  | JObj "(string \<times> jsval) list"

text \<open>
  The parts of the JavaScript runtime whose results the repository's code embeds in its
  output and that are not determined by the code itself: the decimal rendering of a
  double, and the source text \<open>String\<close> returns for a built-in function inherited
  from \<open>Object.prototype\<close>.
\<close>

record js_runtime =
  numberToString :: "real \<Rightarrow> string"
  builtinToString :: "string \<Rightarrow> string"

fun join :: "string \<Rightarrow> string list \<Rightarrow> string" where
  "join sep [] = []"
| "join sep [x] = x"
| "join sep (x # y # ys) = x @ sep @ join sep (y # ys)"

definition hexDigit :: "nat \<Rightarrow> char" where
  "hexDigit n = ''0123456789abcdef'' ! n"

text \<open>
  \<open>QuoteJSONString\<close> of ECMAScript: the double quote is \<open>CHR 0x22\<close>, the backslash
  \<open>CHR 0x5C\<close>.
\<close>

definition JSON_escape :: "char \<Rightarrow> string" where
  "JSON_escape c =
     (if c = CHR 0x08 then [CHR 0x5C, CHR ''b'']
      else if c = CHR 0x09 then [CHR 0x5C, CHR ''t'']
      else if c = CHR 0x0A then [CHR 0x5C, CHR ''n'']
      else if c = CHR 0x0C then [CHR 0x5C, CHR ''f'']
      else if c = CHR 0x0D then [CHR 0x5C, CHR ''r'']
      else if c = CHR 0x22 then [CHR 0x5C, CHR 0x22]
      else if c = CHR 0x5C then [CHR 0x5C, CHR 0x5C]
      else if (of_char c :: nat) < 32
        then [CHR 0x5C, CHR ''u'', CHR ''0'', CHR ''0'',
              hexDigit (of_char c div 16), hexDigit (of_char c mod 16)]
      else [c])"

definition JSON_quote :: "string \<Rightarrow> string" where
  "JSON_quote s = [CHR 0x22] @ concat (map JSON_escape s) @ [CHR 0x22]"

text \<open>
  \<open>JSON.stringify(value, null, gap)\<close>: \<open>ind\<close> is the current indentation. With an
  empty \<open>gap\<close> the text is compact; otherwise every element and member goes on a line
  of its own and a member's colon is followed by a space.
\<close>

fun JSON_serialize :: "js_runtime \<Rightarrow> string \<Rightarrow> string \<Rightarrow> jsval \<Rightarrow> string" where
  "JSON_serialize rt gap ind JNull = ''null''"
| "JSON_serialize rt gap ind (JStr s) = JSON_quote s"
| "JSON_serialize rt gap ind (JNum r) = numberToString rt r"
| "JSON_serialize rt gap ind (JArr xs) =
     (if xs = [] then ''[]''
      else if gap = [] then ''['' @ join '','' (map (JSON_serialize rt gap (ind @ gap)) xs) @ '']''
      else ''['' @ [CHR 0x0A] @ (ind @ gap)
           @ join ('','' @ [CHR 0x0A] @ (ind @ gap)) (map (JSON_serialize rt gap (ind @ gap)) xs)
           @ [CHR 0x0A] @ ind @ '']'')"
| "JSON_serialize rt gap ind (JObj kvs) =
     (if kvs = [] then ''{}''
      else if gap = []
        then ''{'' @ join '',''
               (map (\<lambda>(k, v). JSON_quote k @ '':'' @ JSON_serialize rt gap (ind @ gap) v) kvs)
             @ ''}''
      else ''{'' @ [CHR 0x0A] @ (ind @ gap)
           @ join ('','' @ [CHR 0x0A] @ (ind @ gap))
               (map (\<lambda>(k, v). JSON_quote k @ '': '' @ JSON_serialize rt gap (ind @ gap) v) kvs)
           @ [CHR 0x0A] @ ind @ ''}'')"

definition JSON_stringify :: "js_runtime \<Rightarrow> jsval \<Rightarrow> string" where
  "JSON_stringify rt v = JSON_serialize rt [] [] v"

definition typeof :: "jsval \<Rightarrow> string" where
  "typeof v = (case v of JStr _ \<Rightarrow> ''string'' | JNum _ \<Rightarrow> ''number'' | _ \<Rightarrow> ''object'')"

section \<open>Value inference (src/lib/transformers.js)\<close>

text \<open>
  A value read from the store. A value of a store class is modelled by what the source
  reads from it: a byte blob by the base64 text of \<open>bytesToBase64\<close>, a timestamp by
  \<open>value.toDate().toISOString()\<close>, a date by \<open>value.toISOString()\<close>, a geographic
  point by its \<open>latitude\<close> and \<open>longitude\<close> (both finite: the store's client rejects any
  other), a reference by its \<open>path\<close>. A map is the list \<open>Object.entries\<close> returns.
\<close>

datatype DynamicValue =
    VNull
  | VUndefined
  | VBytes string
  | VTimestamp string
  | VDate string
  | VGeoPoint real real
  | VReference string
  | VArray "DynamicValue list"
  | VMap "(string \<times> DynamicValue) list"
  | VBoolean bool
  | VNumber jsnumber
  | VString string

record transformed =
  value' :: jsval
  sqlType :: string

text \<open>
  The second parameter of the source, \<open>fieldName\<close>, is only extended and passed on to
  the recursive calls; no result depends on it, and it is left out.
\<close>

fun transformValue :: "js_runtime \<Rightarrow> DynamicValue \<Rightarrow> transformed" where
  "transformValue rt VNull = \<lparr>value' = JNull, sqlType = ''NVARCHAR(MAX)''\<rparr>"
| "transformValue rt VUndefined = \<lparr>value' = JNull, sqlType = ''NVARCHAR(MAX)''\<rparr>"
| "transformValue rt (VBytes base64) = \<lparr>value' = JStr base64, sqlType = ''NVARCHAR(MAX)''\<rparr>"
| "transformValue rt (VTimestamp isoText) = \<lparr>value' = JStr isoText, sqlType = ''DATETIME2''\<rparr>"
| "transformValue rt (VDate isoText) = \<lparr>value' = JStr isoText, sqlType = ''DATETIME2''\<rparr>"
| "transformValue rt (VGeoPoint lat lon) =
     \<lparr>value' = JObj [(''latitude'', JNum lat), (''longitude'', JNum lon)],
      sqlType = ''NVARCHAR(100)''\<rparr>"
| "transformValue rt (VReference path) = \<lparr>value' = JStr path, sqlType = ''NVARCHAR(500)''\<rparr>"
| "transformValue rt (VArray items) =
     \<lparr>value' = JStr (JSON_stringify rt
                 (JArr (map (\<lambda>item. value' (transformValue rt item)) items))),
      sqlType = ''NVARCHAR(MAX)''\<rparr>"
| "transformValue rt (VMap entries) =
     \<lparr>value' = JStr (JSON_stringify rt
                 (JObj (map (\<lambda>(key, val). (key, value' (transformValue rt val))) entries))),
      sqlType = ''NVARCHAR(MAX)''\<rparr>"
| "transformValue rt (VBoolean b) = \<lparr>value' = JNum (if b then 1 else 0), sqlType = ''BIT''\<rparr>"
| "transformValue rt (VNumber n) =
     (case n of
        Finite r \<Rightarrow>
          if Number_isInteger r
          then (if r \<ge> -2147483648 \<and> r \<le> 2147483647
                then \<lparr>value' = JNum r, sqlType = ''INT''\<rparr>
                else \<lparr>value' = JNum r, sqlType = ''BIGINT''\<rparr>)
          else \<lparr>value' = JNum r, sqlType = ''FLOAT''\<rparr>
      | _ \<Rightarrow> \<lparr>value' = JNull, sqlType = ''FLOAT''\<rparr>)"
| "transformValue rt (VString s) =
     (let len = length s
      in if len \<le> 50 then \<lparr>value' = JStr s, sqlType = ''NVARCHAR(50)''\<rparr>
         else if len \<le> 255 then \<lparr>value' = JStr s, sqlType = ''NVARCHAR(255)''\<rparr>
         else if len \<le> 1000 then \<lparr>value' = JStr s, sqlType = ''NVARCHAR(1000)''\<rparr>
         else if len \<le> 4000 then \<lparr>value' = JStr s, sqlType = ''NVARCHAR(4000)''\<rparr>
         else \<lparr>value' = JStr s, sqlType = ''NVARCHAR(MAX)''\<rparr>)"

subsection \<open>Field names\<close>

definition isWordChar :: "char \<Rightarrow> bool" where
  "isWordChar c =
     (c \<in> set ''ABCDEFGHIJKLMNOPQRSTUVWXYZabcdefghijklmnopqrstuvwxyz0123456789_'')"

definition isDigit :: "char \<Rightarrow> bool" where
  "isDigit c = (c \<in> set ''0123456789'')"

definition trimUnderscores :: "string \<Rightarrow> string" where
  "trimUnderscores s =
     rev (dropWhile (\<lambda>c. c = CHR ''_'') (rev (dropWhile (\<lambda>c. c = CHR ''_'') s)))"

fun collapseUnderscores :: "string \<Rightarrow> string" where
  "collapseUnderscores (a # b # cs) =
     (if a = CHR ''_'' \<and> b = CHR ''_'' then collapseUnderscores (b # cs)
      else a # collapseUnderscores (b # cs))"
| "collapseUnderscores cs = cs"

definition sanitizeFieldName :: "string \<Rightarrow> string" where
  "sanitizeFieldName fieldName =
     (let s1 = map (\<lambda>c. if c = CHR ''.'' then CHR ''_'' else c) fieldName;
          s2 = map (\<lambda>c. if isWordChar c then c else CHR ''_'') s1;
          s3 = trimUnderscores s2;
          s4 = collapseUnderscores s3;
          s5 = (case s4 of [] \<Rightarrow> s4 | c # _ \<Rightarrow> if isDigit c then CHR ''_'' # s4 else s4)
      in if s5 = [] then ''_field'' else s5)"

subsection \<open>Documents\<close>

text \<open>The decimal text of a counter, as a template literal renders it.\<close>

definition digitChar :: "nat \<Rightarrow> char" where
  "digitChar n = ''0123456789'' ! n"

fun showNat :: "nat \<Rightarrow> string" where
  "showNat n = (if n < 10 then [digitChar n] else showNat (n div 10) @ [digitChar (n mod 10)])"

declare showNat.simps [simp del]

text \<open>
  What the code can throw: the \<open>TypeError\<close> of the language, and an \<open>Error\<close> with a
  message raised by a collaborator (the store, the file system).
\<close>

datatype js_error = TypeError | Error string

text \<open>
  An object built by the code is the list of its own properties in insertion order;
  assigning to a property that exists keeps its place (\<open>AList.update\<close>).
\<close>

definition hasOwnProperty :: "(string \<times> 'v) list \<Rightarrow> string \<Rightarrow> bool" where
  "hasOwnProperty obj k = (k \<in> set (map fst obj))"

record transformedDocument =
  data :: "(string \<times> jsval) list"
  schema :: "(string \<times> string) list"
  fieldMapping :: "(string \<times> string) list"

text \<open>
  The \<open>while\<close> loop of \<open>transformDocument\<close>: \<open>keys\<close> are the own properties of
  \<open>transformedData\<close>, which do not change while the loop runs. It ends because the
  candidates \<open>sanitizedField_1\<close>, \<open>sanitizedField_2\<close>, ... are pairwise different and
  only finitely many of them are keys.
\<close>

function uniqueFieldName :: "string list \<Rightarrow> string \<Rightarrow> string \<Rightarrow> nat \<Rightarrow> string" where
  "uniqueFieldName keys sanitizedField finalField counter =
     (if finalField \<in> set keys \<and> finalField \<noteq> ''id''
      then uniqueFieldName keys sanitizedField
             (sanitizedField @ ''_'' @ showNat counter) (counter + 1)
      else finalField)"
  by pat_completeness auto
termination
proof -
  have digit_inj: "digitChar a = digitChar b \<Longrightarrow> a = b" if "a < 10" "b < 10" for a b
  proof -
    have d: "distinct ''0123456789''" by simp
    from that show "digitChar a = digitChar b \<Longrightarrow> a = b"
      unfolding digitChar_def using nth_eq_iff_index_eq [OF d, of a b] by simp
  qed
  have nonempty: "showNat n \<noteq> []" for n
    by (subst showNat.simps) simp
  have show_inj: "showNat m = showNat n \<Longrightarrow> m = n" for m n
  proof (induction m arbitrary: n rule: showNat.induct)
    case (1 m)
    show ?case
    proof (cases "m < 10")
      case m: True
      show ?thesis
      proof (cases "n < 10")
        case True
        with m "1.prems" show ?thesis
          by (simp add: showNat.simps [of m] showNat.simps [of n] digit_inj)
      next
        case False
        with m "1.prems" nonempty [of "n div 10"] show ?thesis
          by (simp add: showNat.simps [of m] showNat.simps [of n])
      qed
    next
      case m: False
      show ?thesis
      proof (cases "n < 10")
        case True
        with m "1.prems" nonempty [of "m div 10"] show ?thesis
          by (simp add: showNat.simps [of m] showNat.simps [of n])
      next
        case False
        with m "1.prems" have e: "showNat (m div 10) = showNat (n div 10)"
          and d: "digitChar (m mod 10) = digitChar (n mod 10)"
          by (simp_all add: showNat.simps [of m] showNat.simps [of n])
        from "1.IH" [OF m e] have "m div 10 = n div 10" .
        moreover from d have "m mod 10 = n mod 10" by (simp add: digit_inj)
        ultimately show ?thesis by (metis div_mult_mod_eq)
      qed
    qed
  qed
  define cand where "cand s n = s @ ''_'' @ showNat n" for s :: string and n :: nat
  have fin: "finite {n. cand s n \<in> set keys}" for s keys
  proof -
    have "inj (cand s)" by (auto simp: inj_def cand_def dest: show_inj)
    then have "finite (cand s -` set keys)" by (intro finite_vimageI) simp_all
    then show ?thesis by (simp add: vimage_def)
  qed
  define pending where
    "pending = (\<lambda>(keys :: string list, s :: string, f :: string, c :: nat).
       card {n. c \<le> n \<and> cand s n \<in> set keys} + (if f \<in> set keys then 1 else 0))"
  show ?thesis
  proof (relation "measure pending")
    fix keys :: "string list" and s f :: string and c :: nat
    assume a: "f \<in> set keys \<and> f \<noteq> ''id''"
    let ?A = "{n. c \<le> n \<and> cand s n \<in> set keys}"
    let ?B = "{n. c + 1 \<le> n \<and> cand s n \<in> set keys}"
    have finA: "finite ?A" by (rule finite_subset [OF _ fin [of s keys]]) auto
    have "card ?B + (if cand s c \<in> set keys then 1 else 0) \<le> card ?A"
    proof (cases "cand s c \<in> set keys")
      case True
      have sub: "?B \<subseteq> ?A" by auto
      have "c \<in> ?A" "c \<notin> ?B" using True by auto
      with sub have "?B \<subset> ?A" by (metis psubsetI)
      from psubset_card_mono [OF finA this] True show ?thesis by simp
    next
      case False
      have "?B \<subseteq> ?A" by auto
      from card_mono [OF finA this] False show ?thesis by simp
    qed
    with a show "((keys, s, s @ ''_'' @ showNat c, c + 1), (keys, s, f, c)) \<in> measure pending"
      by (simp add: pending_def cand_def)
  qed simp
qed

declare uniqueFieldName.simps [simp del]

text \<open>
  The body of the \<open>for\<close> loop of \<open>transformDocument\<close>, for the entries of \<open>data\<close> in
  the order of \<open>Object.entries\<close>. The loop condition calls
  \<open>transformedData.hasOwnProperty\<close>; once an earlier field has been stored under the
  name \<open>hasOwnProperty\<close>, that property is the field's value and the call raises
  \<open>TypeError\<close>.
\<close>

fun transformFields ::
  "js_runtime \<Rightarrow> (string \<times> DynamicValue) list \<Rightarrow> transformedDocument
     \<Rightarrow> js_error + transformedDocument" where
  "transformFields rt [] acc = Inr acc"
| "transformFields rt ((field, v) # rest) acc =
     (let sanitizedField = sanitizeFieldName field;
          t = transformValue rt v
      in if hasOwnProperty (data acc) ''hasOwnProperty'' then Inl TypeError
         else (let finalField =
                     uniqueFieldName (map fst (data acc)) sanitizedField sanitizedField 1
               in transformFields rt rest
                    \<lparr>data = AList.update finalField (value' t) (data acc),
                     schema = AList.update finalField (sqlType t) (schema acc),
                     fieldMapping = AList.update field finalField (fieldMapping acc)\<rparr>))"

definition transformDocument ::
  "js_runtime \<Rightarrow> string \<Rightarrow> (string \<times> DynamicValue) list
     \<Rightarrow> js_error + transformedDocument" where
  "transformDocument rt docId docData =
     transformFields rt docData
       \<lparr>data = [(''id'', JStr docId)],
        schema = [(''id'', ''NVARCHAR(255)'')],
        fieldMapping = []\<rparr>"

subsection \<open>Merging schemas\<close>

text \<open>
  \<open>merged\<close> is a plain object, so \<open>merged[field]\<close> also finds the functions inherited
  from \<open>Object.prototype\<close>. Of their names, these can be column names (a column name
  never has the form \<open>__x__\<close>). For such a name that is not yet an own property,
  \<open>merged[field]\<close> is truthy and \<open>getWiderType\<close> is called with a function as
  \<open>type1\<close>: it is not equal to any string, its \<open>indexOf\<close> is \<open>-1\<close> and it is not
  numeric, so the call returns \<open>NVARCHAR(MAX)\<close> for a numeric \<open>type2\<close> and \<open>type2\<close>
  otherwise.
\<close>

definition objectPrototypeNames :: "string list" where
  "objectPrototypeNames =
     [''constructor'', ''hasOwnProperty'', ''isPrototypeOf'', ''propertyIsEnumerable'',
      ''toLocaleString'', ''toString'', ''valueOf'']"

definition mergeField :: "(string \<times> string) list \<Rightarrow> string \<times> string \<Rightarrow> (string \<times> string) list" where
  "mergeField merged entry =
     (let field = fst entry; sqlType = snd entry
      in case map_of merged field of
           Some t \<Rightarrow>
             if t = [] then AList.update field sqlType merged
             else AList.update field (getWiderType t sqlType) merged
         | None \<Rightarrow>
             if field \<in> set objectPrototypeNames
             then AList.update field
                    (if isNumericType sqlType then ''NVARCHAR(MAX)'' else sqlType) merged
             else AList.update field sqlType merged)"

definition mergeSchemas :: "(string \<times> string) list list \<Rightarrow> (string \<times> string) list" where
  "mergeSchemas schemas = foldl (\<lambda>merged schema. foldl mergeField merged schema) [] schemas"

section \<open>A runtime for the examples\<close>

text \<open>
  The theorems below hold for every runtime. Where a closed example needs one, this one
  is used: it renders an integer in decimal, as JavaScript does for magnitudes below
  \<open>10^21\<close>, and a built-in function as V8 does. The examples contain no number that
  is not an integer; such a number is rendered by a fixed placeholder.
\<close>

definition showInt :: "int \<Rightarrow> string" where
  "showInt i = (if i < 0 then CHR ''-'' # showNat (nat (- i)) else showNat (nat i))"

definition exampleRuntime :: js_runtime where
  "exampleRuntime =
     \<lparr>numberToString = (\<lambda>r. if Number_isInteger r then showInt \<lfloor>r\<rfloor> else ''<double>''),
      builtinToString = (\<lambda>name. ''function '' @ name @ ''() { [native code] }'')\<rparr>"

section \<open>Configuration (src/config.js)\<close>

record sql_config =
  sqlSchema :: "string option"
  includeCreateTable :: bool
  includeDropTable :: bool

record export_config =
  collections :: "string list"
  jsonOutputDir :: string
  sqlOutputDir :: string
  sql :: sql_config
  batchSize :: nat
  continueOnError :: bool

definition defaultConfig :: export_config where
  "defaultConfig =
     \<lparr>collections = [], jsonOutputDir = ''./output/json'', sqlOutputDir = ''./output/sql'',
      sql = \<lparr>sqlSchema = Some ''dbo'', includeCreateTable = True, includeDropTable = True\<rparr>,
      batchSize = 500, continueOnError = True\<rparr>"

section \<open>Exported documents and file names\<close>

text \<open>A document as the collector hands it to the exporters: \<open>{id, data, path}\<close>.\<close>

record document =
  doc_id :: string
  doc_data :: "(string \<times> DynamicValue) list"
  doc_path :: string

definition isSpace :: "char \<Rightarrow> bool" where
  "isSpace c = (c \<in> set [CHR 0x20, CHR 0x09, CHR 0x0A, CHR 0x0B, CHR 0x0C, CHR 0x0D, CHR 0xA0])"

fun replaceSpaces :: "string \<Rightarrow> string" where
  "replaceSpaces (a # b # cs) =
     (if isSpace a \<and> isSpace b then replaceSpaces (b # cs)
      else (if isSpace a then CHR ''_'' else a) # replaceSpaces (b # cs))"
| "replaceSpaces [a] = [if isSpace a then CHR ''_'' else a]"
| "replaceSpaces [] = []"

definition sanitizeFileName :: "string \<Rightarrow> string" where
  "sanitizeFileName collectionName =
     (let s1 = map (\<lambda>c. if c \<in> set [CHR ''<'', CHR ''>'', CHR '':'', CHR 0x22, CHR ''/'',
                                      CHR 0x5C, CHR ''|'', CHR ''?'', CHR ''*'']
                          then CHR ''_'' else c) collectionName;
          s2 = replaceSpaces s1;
          s3 = collapseUnderscores s2;
          s4 = trimUnderscores s3;
          s5 = (if length s4 > 200 then take 200 s4 else s4)
      in if s5 = [] then ''collection'' else s5)"

section \<open>The JSON exporter (src/lib/jsonExporter.js)\<close>

text \<open>
  The exporters read the clock (\<open>new Date().toISOString()\<close>, here \<open>now\<close>) and write one
  file; a call is modelled by the path and the text it passes to \<open>writeFileSync\<close>. The
  path is \<open>path.join\<close> of Node.js applied to the output directory and the file name,
  taken as a parameter. Creating the output directory and reporting progress do not
  enter the file and are left out.
\<close>

definition jsonDocument :: "js_runtime \<Rightarrow> document \<Rightarrow> js_error + jsval" where
  "jsonDocument rt doc =
     (case transformDocument rt (doc_id doc) (doc_data doc) of
        Inl e \<Rightarrow> Inl e
      | Inr t \<Rightarrow>
          Inr (JObj (foldl (\<lambda>obj (k, v). AList.update k v obj)
                       [(''_id'', JStr (doc_id doc)), (''_path'', JStr (doc_path doc))]
                       (data t))))"

text \<open>
  Transforming the documents one after the other, as \<open>documents.map\<close> and the
  \<open>for\<close> loop of the SQL exporter do; the first error ends the export.
\<close>

fun transformAll :: "(document \<Rightarrow> js_error + 'b) \<Rightarrow> document list \<Rightarrow> 'b list \<Rightarrow> js_error + 'b list" where
  "transformAll f [] transformedDocs = Inr transformedDocs"
| "transformAll f (doc # docs) transformedDocs =
     (case f doc of
        Inl e \<Rightarrow> Inl e
      | Inr t \<Rightarrow> transformAll f docs (transformedDocs @ [t]))"

definition exportToJson ::
  "js_runtime \<Rightarrow> (string \<Rightarrow> string \<Rightarrow> string) \<Rightarrow> export_config \<Rightarrow> string \<Rightarrow> string
     \<Rightarrow> document list \<Rightarrow> js_error + string \<times> string" where
  "exportToJson rt pathJoin config now collectionName documents =
     (let safeCollectionName = sanitizeFileName collectionName
      in case transformAll (jsonDocument rt) documents [] of
           Inl e \<Rightarrow> Inl e
         | Inr transformedDocuments \<Rightarrow>
             (let output = JObj [(''collection'', JStr collectionName),
                                 (''exportedAt'', JStr now),
                                 (''count'', JNum (real (length transformedDocuments))),
                                 (''documents'', JArr transformedDocuments)];
                  filename = safeCollectionName @ ''.json'';
                  filepath = pathJoin (jsonOutputDir config) filename
              in Inr (filepath, JSON_serialize rt ''  '' [] output)))"

section \<open>The SQL exporter (src/lib/sqlExporter.js)\<close>

definition RESERVED_WORDS :: "string list" where
  "RESERVED_WORDS =
    [''ADD'', ''ALL'', ''ALTER'', ''AND'', ''ANY'', ''AS'', ''ASC'', ''AUTHORIZATION'', ''BACKUP'',
     ''BEGIN'', ''BETWEEN'', ''BREAK'', ''BROWSE'', ''BULK'', ''BY'', ''CASCADE'', ''CASE'',
     ''CHECK'', ''CHECKPOINT'', ''CLOSE'', ''CLUSTERED'', ''COALESCE'', ''COLLATE'', ''COLUMN'',
     ''COMMIT'', ''COMPUTE'', ''CONSTRAINT'', ''CONTAINS'', ''CONTAINSTABLE'', ''CONTINUE'',
     ''CONVERT'', ''CREATE'', ''CROSS'', ''CURRENT'', ''CURRENT_DATE'', ''CURRENT_TIME'',
     ''CURRENT_TIMESTAMP'', ''CURRENT_USER'', ''CURSOR'', ''DATABASE'', ''DBCC'',
     ''DEALLOCATE'', ''DECLARE'', ''DEFAULT'', ''DELETE'', ''DENY'', ''DESC'', ''DISK'',
     ''DISTINCT'', ''DISTRIBUTED'', ''DOUBLE'', ''DROP'', ''DUMP'', ''ELSE'', ''END'', ''ERRLVL'',
     ''ESCAPE'', ''EXCEPT'', ''EXEC'', ''EXECUTE'', ''EXISTS'', ''EXIT'', ''EXTERNAL'', ''FETCH'',
     ''FILE'', ''FILLFACTOR'', ''FOR'', ''FOREIGN'', ''FREETEXT'', ''FREETEXTTABLE'', ''FROM'',
     ''FULL'', ''FUNCTION'', ''GOTO'', ''GRANT'', ''GROUP'', ''HAVING'', ''HOLDLOCK'', ''IDENTITY'',
     ''IDENTITY_INSERT'', ''IDENTITYCOL'', ''IF'', ''IN'', ''INDEX'', ''INNER'', ''INSERT'',
     ''INTERSECT'', ''INTO'', ''IS'', ''JOIN'', ''KEY'', ''KILL'', ''LEFT'', ''LIKE'', ''LINENO'',
     ''LOAD'', ''MERGE'', ''NATIONAL'', ''NOCHECK'', ''NONCLUSTERED'', ''NOT'', ''NULL'',
     ''NULLIF'', ''OF'', ''OFF'', ''OFFSETS'', ''ON'', ''OPEN'', ''OPENDATASOURCE'', ''OPENQUERY'',
     ''OPENROWSET'', ''OPENXML'', ''OPTION'', ''OR'', ''ORDER'', ''OUTER'', ''OVER'', ''PERCENT'',
     ''PIVOT'', ''PLAN'', ''PRECISION'', ''PRIMARY'', ''PRINT'', ''PROC'', ''PROCEDURE'',
     ''PUBLIC'', ''RAISERROR'', ''READ'', ''READTEXT'', ''RECONFIGURE'', ''REFERENCES'',
     ''REPLICATION'', ''RESTORE'', ''RESTRICT'', ''RETURN'', ''REVERT'', ''REVOKE'', ''RIGHT'',
     ''ROLLBACK'', ''ROWCOUNT'', ''ROWGUIDCOL'', ''RULE'', ''SAVE'', ''SCHEMA'', ''SECURITYAUDIT'',
     ''SELECT'', ''SEMANTICKEYPHRASETABLE'', ''SEMANTICSIMILARITYDETAILSTABLE'',
     ''SEMANTICSIMILARITYTABLE'', ''SESSION_USER'', ''SET'', ''SETUSER'', ''SHUTDOWN'',
     ''SOME'', ''STATISTICS'', ''SYSTEM_USER'', ''TABLE'', ''TABLESAMPLE'', ''TEXTSIZE'',
     ''THEN'', ''TO'', ''TOP'', ''TRAN'', ''TRANSACTION'', ''TRIGGER'', ''TRUNCATE'', ''TRY_CONVERT'',
     ''TSEQUAL'', ''UNION'', ''UNIQUE'', ''UNPIVOT'', ''UPDATE'', ''UPDATETEXT'', ''USE'', ''USER'',
     ''VALUES'', ''VARYING'', ''VIEW'', ''WAITFOR'', ''WHEN'', ''WHERE'', ''WHILE'', ''WITH'',
     ''WITHIN GROUP'', ''WRITETEXT'', ''TYPE'', ''STATUS'', ''NAME'', ''VALUE'', ''DATA'', ''LEVEL'',
     ''DATE'', ''TIME'', ''TIMESTAMP'', ''YEAR'', ''MONTH'', ''DAY'', ''HOUR'', ''MINUTE'', ''SECOND'',
     ''ZONE'', ''FIRST'', ''LAST'', ''NEXT'', ''PRIOR'', ''ABSOLUTE'', ''RELATIVE'', ''ACTION'']"

text \<open>
  \<open>toUpperCase\<close> on the letters \<open>a\<close> to \<open>z\<close>. A name with any other letter needs quoting
  by the third test of \<open>needsQuoting\<close> whatever its upper case is, so the result of
  \<open>needsQuoting\<close> is that of the source for every name.
\<close>

definition toUpperCase :: "string \<Rightarrow> string" where
  "toUpperCase s =
     map (\<lambda>c. if c \<in> set ''abcdefghijklmnopqrstuvwxyz''
               then char_of (of_char c - (32 :: nat)) else c) s"

definition needsQuoting :: "string \<Rightarrow> bool" where
  "needsQuoting name =
     (if toUpperCase name \<in> set RESERVED_WORDS then True
      else if (case name of [] \<Rightarrow> False | c # _ \<Rightarrow> isDigit c) then True
      else if (\<exists>c \<in> set name. \<not> isWordChar c) then True
      else False)"

definition quoteName :: "string \<Rightarrow> string" where
  "quoteName name =
     (if needsQuoting name
      then ''['' @ concat (map (\<lambda>c. if c = CHR '']'' then '']]'' else [c]) name) @ '']''
      else name)"

text \<open>
  What reading \<open>data[col]\<close> from a plain object gives: an own property, else a function
  inherited from \<open>Object.prototype\<close>, else \<open>undefined\<close>.
\<close>

datatype jsprop = PropUndefined | PropValue jsval | PropBuiltin string

definition getProp :: "(string \<times> jsval) list \<Rightarrow> string \<Rightarrow> jsprop" where
  "getProp obj k =
     (case map_of obj k of
        Some v \<Rightarrow> PropValue v
      | None \<Rightarrow> if k \<in> set objectPrototypeNames then PropBuiltin k else PropUndefined)"

definition sqlString :: "string \<Rightarrow> string" where
  "sqlString s =
     ''N'' @ [CHR 0x27] @ concat (map (\<lambda>c. if c = CHR 0x27 then [CHR 0x27, CHR 0x27] else [c]) s)
     @ [CHR 0x27]"

text \<open>
  A number held by a \<open>jsval\<close> is finite, so the test \<open>Number.isFinite\<close> of the source
  succeeds; no value reaching \<open>escapeSqlValue\<close> is a boolean.
\<close>

definition escapeSqlValue :: "js_runtime \<Rightarrow> jsprop \<Rightarrow> string" where
  "escapeSqlValue rt p =
     (case p of
        PropUndefined \<Rightarrow> ''NULL''
      | PropBuiltin name \<Rightarrow> sqlString (builtinToString rt name)
      | PropValue v \<Rightarrow>
          (case v of
             JNull \<Rightarrow> ''NULL''
           | JNum r \<Rightarrow> numberToString rt r
           | JStr s \<Rightarrow> sqlString s
           | _ \<Rightarrow> sqlString (JSON_stringify rt v)))"

definition schemaPrefix :: "export_config \<Rightarrow> string" where
  "schemaPrefix config =
     (case sqlSchema (sql config) of
        None \<Rightarrow> []
      | Some s \<Rightarrow> if s = [] then [] else ''['' @ s @ ''].'')"

definition generateCreateTable ::
  "export_config \<Rightarrow> string \<Rightarrow> (string \<times> string) list \<Rightarrow> string" where
  "generateCreateTable config tableName tableSchema =
     (let safeTableName = quoteName tableName;
          fullTableName = schemaPrefix config @ safeTableName;
          columns = join ('','' @ [CHR 0x0A])
                      (map (\<lambda>(field, sqlType). ''    '' @ quoteName field @ '' '' @ sqlType)
                         tableSchema);
          dropTable =
            (if includeDropTable (sql config)
             then ''IF OBJECT_ID('' @ [CHR 0x27] @ schemaPrefix config @ tableName
                  @ [CHR 0x27] @ '', '' @ [CHR 0x27] @ ''U'' @ [CHR 0x27] @ '') IS NOT NULL''
                  @ [CHR 0x0A] @ ''    DROP TABLE '' @ fullTableName @ '';'' @ [CHR 0x0A]
                  @ ''GO'' @ [CHR 0x0A, CHR 0x0A]
             else [])
      in dropTable @ ''CREATE TABLE '' @ fullTableName @ '' ('' @ [CHR 0x0A] @ columns
         @ [CHR 0x0A] @ '');'' @ [CHR 0x0A] @ ''GO'' @ [CHR 0x0A, CHR 0x0A])"

definition generateInsert ::
  "js_runtime \<Rightarrow> export_config \<Rightarrow> string \<Rightarrow> (string \<times> jsval) list \<Rightarrow> string list \<Rightarrow> string" where
  "generateInsert rt config tableName row columns =
     (let safeTableName = quoteName tableName;
          fullTableName = schemaPrefix config @ safeTableName;
          columnList = join '', '' (map quoteName columns);
          valueList = join '', '' (map (\<lambda>col. escapeSqlValue rt (getProp row col)) columns)
      in ''INSERT INTO '' @ fullTableName @ '' ('' @ columnList @ '') VALUES ('' @ valueList
         @ '');'')"

definition sqlDocument :: "js_runtime \<Rightarrow> document \<Rightarrow> js_error + transformedDocument" where
  "sqlDocument rt doc =
     (case transformDocument rt (doc_id doc) (doc_data doc) of
        Inl e \<Rightarrow> Inl e
      | Inr t \<Rightarrow>
          Inr (t\<lparr>data := AList.update ''_path'' (JStr (doc_path doc)) (data t),
                 schema := AList.update ''_path'' ''NVARCHAR(500)'' (schema t)\<rparr>))"

definition exportToSql ::
  "js_runtime \<Rightarrow> (string \<Rightarrow> string \<Rightarrow> string) \<Rightarrow> export_config \<Rightarrow> string \<Rightarrow> string
     \<Rightarrow> document list \<Rightarrow> js_error + string \<times> string" where
  "exportToSql rt pathJoin config now collectionName documents =
     (let safeCollectionName = sanitizeFileName collectionName
      in case transformAll (sqlDocument rt) documents [] of
           Inl e \<Rightarrow> Inl e
         | Inr transformedDocs \<Rightarrow>
             (let mergedSchema = mergeSchemas (map schema transformedDocs);
                  columns = map fst mergedSchema;
                  header = ''-- Firestore Export: '' @ collectionName @ [CHR 0x0A]
                           @ ''-- Exported at: '' @ now @ [CHR 0x0A]
                           @ ''-- Document count: '' @ showNat (length documents)
                           @ [CHR 0x0A, CHR 0x0A];
                  createTable =
                    (if includeCreateTable (sql config)
                     then generateCreateTable config safeCollectionName mergedSchema else []);
                  inserts = concat (map (\<lambda>doc. generateInsert rt config safeCollectionName
                                                  (data doc) columns @ [CHR 0x0A])
                                        transformedDocs);
                  filename = safeCollectionName @ ''.sql'';
                  filepath = pathJoin (sqlOutputDir config) filename
              in Inr (filepath,
                      header @ createTable @ ''-- Data'' @ [CHR 0x0A] @ inserts
                      @ ''GO'' @ [CHR 0x0A])))"

section \<open>Path normalization (the collector)\<close>

text \<open>
  \<open>String.prototype.split\<close> with a separator of one character; the result is never
  empty. \<open>evenIndexed\<close> is \<open>parts.filter((_, index) => index % 2 === 0)\<close>.
\<close>

fun splitString :: "char \<Rightarrow> string \<Rightarrow> string list" where
  "splitString sep [] = [[]]"
| "splitString sep (c # cs) =
     (if c = sep then [] # splitString sep cs
      else (case splitString sep cs of x # xs \<Rightarrow> (c # x) # xs | [] \<Rightarrow> [[c]]))"

fun evenIndexed :: "'a list \<Rightarrow> 'a list" where
  "evenIndexed (x # y # zs) = x # evenIndexed zs"
| "evenIndexed xs = xs"

definition normalizeCollectionPath :: "string \<Rightarrow> string" where
  "normalizeCollectionPath path =
     (let parts = splitString CHR ''/'' path;
          collectionParts = evenIndexed parts
      in join ''__'' collectionParts)"

text \<open>
  A name that cannot be confused with the delimiter \<open>__\<close>: it is not empty, neither
  starts nor ends with an underscore and has no two underscores in a row.
\<close>

fun hasDoubleUnderscore :: "string \<Rightarrow> bool" where
  "hasDoubleUnderscore (a # b # cs) =
     ((a = CHR ''_'' \<and> b = CHR ''_'') \<or> hasDoubleUnderscore (b # cs))"
| "hasDoubleUnderscore cs = False"

definition cleanName :: "string \<Rightarrow> bool" where
  "cleanName n = (n \<noteq> [] \<and> hd n \<noteq> CHR ''_'' \<and> last n \<noteq> CHR ''_'' \<and> \<not> hasDoubleUnderscore n)"

section \<open>Collecting the documents of one collection (the collector)\<close>

text \<open>
  The store's query interface for one collection:
  \<open>collectionRef.limit(n).get()\<close> is \<open>get None n\<close> and
  \<open>collectionRef.limit(n).startAfter(lastDoc).get()\<close> is \<open>get (Some lastDoc) n\<close>; the
  result is the snapshot's documents or the error thrown.

  \<open>collectLoop\<close> is the \<open>while (true)\<close> loop of \<open>collectDocuments\<close>. Nothing in the
  code bounds the number of rounds, so the loop is a partial function: \<open>None\<close> means that
  it does not return. Besides the outcome it returns the pages fetched, in order. The
  progress callback has no influence on the result and is left out.
\<close>

type_synonym page_query = "document option \<Rightarrow> nat \<Rightarrow> js_error + document list"

partial_function (option) collectLoop ::
  "page_query \<Rightarrow> nat \<Rightarrow> document list \<Rightarrow> document option \<Rightarrow> document list list
     \<Rightarrow> ((js_error + document list) \<times> document list list) option" where
  "collectLoop get limit documents lastDoc pages =
     (case get lastDoc limit of
        Inl e \<Rightarrow> Some (Inl e, pages)
      | Inr snapshot \<Rightarrow>
          if snapshot = [] then Some (Inr documents, pages @ [snapshot])
          else if length snapshot < limit
            then Some (Inr (documents @ snapshot), pages @ [snapshot])
          else collectLoop get limit (documents @ snapshot) (Some (last snapshot))
                 (pages @ [snapshot]))"

declare collectLoop.simps [code]

definition collectDocuments ::
  "page_query \<Rightarrow> nat \<Rightarrow> ((js_error + document list) \<times> document list list) option" where
  "collectDocuments get limit = collectLoop get limit [] None []"

text \<open>
  A store that serves a finite collection in a stable order: the documents \<open>docs\<close> are
  kept in the order of their identifiers, a query without cursor answers the first
  \<open>limit\<close> of them, and a query with a cursor the first \<open>limit\<close> of those whose
  identifier comes after the cursor's.
\<close>

definition servePages :: "document list \<Rightarrow> page_query" where
  "servePages docs cursor limit =
     Inr (take limit
            (case cursor of
               None \<Rightarrow> docs
             | Some d \<Rightarrow> filter (\<lambda>x. doc_id d < doc_id x) docs))"

text \<open>
  The cursor the loop holds after it has read the first \<open>k\<close> documents of \<open>docs\<close>.
\<close>

definition cursorAt :: "document list \<Rightarrow> nat \<Rightarrow> document option" where
  "cursorAt docs k = (if k = 0 then None else Some (docs ! (k - 1)))"

section \<open>The traversal engine (the collector's streamCollections)\<close>

text \<open>
  The store as the collector uses it: \<open>db.collection(path)\<close> gives the paged query
  interface of the collection at \<open>path\<close>, \<open>docRef.listCollections()\<close> the names of the
  subcollections of the document at a path, \<open>db.listCollections()\<close> the names of the
  root collections. Each call may throw.
\<close>

record store =
  query :: "string \<Rightarrow> page_query"
  listCollections :: "string \<Rightarrow> js_error + string list"
  listRootCollections :: "js_error + string list"

record stream_results =
  totalDocs :: nat
  subcollections :: nat
  jsonFiles :: nat
  sqlFiles :: nat

text \<open>
  What a traversal does to its collaborators, in order: it collects the documents of a
  collection (the event carries what was collected), lists the subcollections of a
  document, and invokes the JSON or the SQL writer on a table.
\<close>

datatype event =
    Collected string "document list"
  | Listed string
  | JsonWritten string "document list"
  | SqlWritten string "document list"

record traversal =
  queue :: "(string \<times> nat) list"
  processedPaths :: "string list"
  documentsByPath :: "(string \<times> document list) list"
  results :: stream_results
  trace :: "event list"

text \<open>
  The loop over the documents just collected: \<open>getSubcollections\<close> for each, and a
  queue entry for each subcollection path that is not processed yet.
\<close>

fun enqueueSubcollections ::
  "store \<Rightarrow> string list \<Rightarrow> nat \<Rightarrow> document list \<Rightarrow> (string \<times> nat) list \<Rightarrow> event list
     \<Rightarrow> (js_error + (string \<times> nat) list) \<times> event list" where
  "enqueueSubcollections st processed depth [] q lg = (Inr q, lg)"
| "enqueueSubcollections st processed depth (doc # docs) q lg =
     (case listCollections st (doc_path doc) of
        Inl e \<Rightarrow> (Inl e, lg @ [Listed (doc_path doc)])
      | Inr names \<Rightarrow>
          enqueueSubcollections st processed depth docs
            (q @ map (\<lambda>subcollectionPath. (subcollectionPath, depth + 1))
                   (filter (\<lambda>subcollectionPath. subcollectionPath \<notin> set processed)
                      (map (\<lambda>subcollectionName. doc_path doc @ ''/'' @ subcollectionName)
                         names)))
            (lg @ [Listed (doc_path doc)]))"

text \<open>
  \<open>documentsByPath\<close> is a \<open>Map\<close>: a new key goes to the end, and pushing to the array of
  a key that exists keeps the key's place.
\<close>

definition pushDocuments ::
  "(string \<times> document list) list \<Rightarrow> string \<Rightarrow> document list \<Rightarrow> (string \<times> document list) list" where
  "pushDocuments byPath normalizedPath documents =
     (case map_of byPath normalizedPath of
        None \<Rightarrow> AList.update normalizedPath documents byPath
      | Some old \<Rightarrow> AList.update normalizedPath (old @ documents) byPath)"

text \<open>
  The \<open>while (queue.length > 0)\<close> loop. The outcome is the error thrown with the log up to
  it, or the state when the queue is empty; \<open>None\<close> means that the loop does not return.
\<close>

partial_function (option) traverseLoop ::
  "store \<Rightarrow> nat \<Rightarrow> traversal \<Rightarrow> (js_error \<times> event list + traversal) option" where
  "traverseLoop st limit s =
     (case queue s of
        [] \<Rightarrow> Some (Inr s)
      | (path, depth) # rest \<Rightarrow>
          if path \<in> set (processedPaths s) then traverseLoop st limit (s\<lparr>queue := rest\<rparr>)
          else
            Option.bind (collectDocuments (query st path) limit) (\<lambda>collected.
              case fst collected of
                Inl e \<Rightarrow> Some (Inl (e, trace s))
              | Inr documents \<Rightarrow>
                  if documents = []
                  then traverseLoop st limit
                         (s\<lparr>queue := rest, processedPaths := processedPaths s @ [path],
                            trace := trace s @ [Collected path documents]\<rparr>)
                  else
                    (let normalizedPath = normalizeCollectionPath path;
                         isNew = (map_of (documentsByPath s) normalizedPath = None);
                         res = results s;
                         res' = res\<lparr>totalDocs := totalDocs res + length documents,
                                     subcollections := (if isNew \<and> depth > 0
                                        then subcollections res + 1 else subcollections res)\<rparr>
                     in case enqueueSubcollections st (processedPaths s @ [path]) depth documents rest
                               (trace s @ [Collected path documents]) of
                          (Inl e, lg) \<Rightarrow> Some (Inl (e, lg))
                        | (Inr q, lg) \<Rightarrow>
                            traverseLoop st limit
                              \<lparr>queue = q, processedPaths = processedPaths s @ [path],
                               documentsByPath =
                                 pushDocuments (documentsByPath s) normalizedPath documents,
                               results = res', trace = lg\<rparr>)))"

declare traverseLoop.simps [code]

text \<open>
  The sink writers are parameters: a writer is called with the table name and the
  accumulated documents and answers the path of the file written or the error thrown.
  \<open>flushTables\<close> is the \<open>for (const [normalizedPath, documents] of documentsByPath)\<close>
  loop with its \<open>try\<close>/\<open>catch\<close>.
\<close>

type_synonym writer = "string \<Rightarrow> document list \<Rightarrow> js_error + string"

fun flushTables ::
  "bool \<Rightarrow> writer \<Rightarrow> writer \<Rightarrow> string \<Rightarrow> (string \<times> document list) list
     \<Rightarrow> stream_results \<Rightarrow> event list \<Rightarrow> (js_error + stream_results) \<times> event list" where
  "flushTables continue jsonWriter sqlWriter format [] res lg = (Inr res, lg)"
| "flushTables continue jsonWriter sqlWriter format ((normalizedPath, documents) # rest) res lg =
     (if documents = [] then flushTables continue jsonWriter sqlWriter format rest res lg
      else
        (let wantJson = (format = ''json'' \<or> format = ''both'');
             wantSql = (format = ''sql'' \<or> format = ''both'');
             lg1 = (if wantJson then lg @ [JsonWritten normalizedPath documents] else lg);
             json = (if wantJson then jsonWriter normalizedPath documents else Inr [])
         in case json of
              Inl e \<Rightarrow>
                if continue then flushTables continue jsonWriter sqlWriter format rest res lg1
                else (Inl e, lg1)
            | Inr _ \<Rightarrow>
                (let res1 = (if wantJson then res\<lparr>jsonFiles := jsonFiles res + 1\<rparr> else res);
                     lg2 = (if wantSql then lg1 @ [SqlWritten normalizedPath documents] else lg1);
                     sqlOut = (if wantSql then sqlWriter normalizedPath documents else Inr [])
                 in case sqlOut of
                      Inl e \<Rightarrow>
                        if continue
                        then flushTables continue jsonWriter sqlWriter format rest res1 lg2
                        else (Inl e, lg2)
                    | Inr _ \<Rightarrow>
                        flushTables continue jsonWriter sqlWriter format rest
                          (if wantSql then res1\<lparr>sqlFiles := sqlFiles res1 + 1\<rparr> else res1)
                          lg2)))"

definition streamCollections ::
  "store \<Rightarrow> export_config \<Rightarrow> writer \<Rightarrow> writer \<Rightarrow> string \<Rightarrow> string
     \<Rightarrow> ((js_error + stream_results) \<times> event list) option" where
  "streamCollections st config jsonWriter sqlWriter collectionName format =
     Option.bind
       (traverseLoop st (batchSize config)
          \<lparr>queue = [(collectionName, 0)], processedPaths = [], documentsByPath = [],
           results = \<lparr>totalDocs = 0, subcollections = 0, jsonFiles = 0, sqlFiles = 0\<rparr>,
           trace = []\<rparr>)
       (\<lambda>final.
          case final of
            Inl (e, lg) \<Rightarrow> Some (Inl e, lg)
          | Inr s \<Rightarrow>
              Some (flushTables (continueOnError config) jsonWriter sqlWriter format
                      (documentsByPath s) (results s) (trace s)))"

subsection \<open>Reading a log\<close>


definition jsonWrites :: "event list \<Rightarrow> (string \<times> document list) list" where
  "jsonWrites lg = concat (map (\<lambda>e. case e of JsonWritten t ds \<Rightarrow> [(t, ds)] | _ \<Rightarrow> []) lg)"

definition sqlWrites :: "event list \<Rightarrow> (string \<times> document list) list" where
  "sqlWrites lg = concat (map (\<lambda>e. case e of SqlWritten t ds \<Rightarrow> [(t, ds)] | _ \<Rightarrow> []) lg)"

definition touched :: "event list \<Rightarrow> string list" where
  "touched lg =
     concat (map (\<lambda>e. case e of
                          Collected p ds \<Rightarrow> if ds = [] then [] else [normalizeCollectionPath p]
                        | _ \<Rightarrow> []) lg)"

definition insertNew :: "'a list \<Rightarrow> 'a \<Rightarrow> 'a list" where
  "insertNew xs x = (if x \<in> set xs then xs else xs @ [x])"


definition tableDocs :: "event list \<Rightarrow> string \<Rightarrow> document list" where
  "tableDocs lg t =
     concat (map (\<lambda>e. case e of
                          Collected p ds \<Rightarrow> if normalizeCollectionPath p = t then ds else []
                        | _ \<Rightarrow> []) lg)"


subsection \<open>What a traversal and a flush maintain\<close>




subsection \<open>A store and writers for the examples\<close>

text \<open>
  A store with the root collection \<open>users\<close>, whose documents are \<open>u1\<close> and \<open>u2\<close>; \<open>u1\<close> has
  the subcollection \<open>orders\<close> with the document \<open>o1\<close>. One writer that succeeds and one
  that fails as a directory without write permission does.
\<close>

definition exampleUsers :: "document list" where
  "exampleUsers =
     [\<lparr>doc_id = ''u1'', doc_data = [(''name'', VString ''Ann'')], doc_path = ''users/u1''\<rparr>,
      \<lparr>doc_id = ''u2'', doc_data = [(''name'', VString ''Bob'')], doc_path = ''users/u2''\<rparr>]"

definition exampleOrders :: "document list" where
  "exampleOrders =
     [\<lparr>doc_id = ''o1'', doc_data = [(''total'', VNumber (Finite 5))],
       doc_path = ''users/u1/orders/o1''\<rparr>]"

definition exampleStore :: store where
  "exampleStore =
     \<lparr>query = (\<lambda>path. if path = ''users'' then servePages exampleUsers
                       else if path = ''users/u1/orders'' then servePages exampleOrders
                       else servePages []),
      listCollections = (\<lambda>docPath. if docPath = ''users/u1'' then Inr [''orders''] else Inr []),
      listRootCollections = Inr [''users'']\<rparr>"



section \<open>The export driver and its checkpoint\<close>

text \<open>
  The persisted state (\<open>.export-state.json\<close>). \<open>startedAt\<close> is optional because the
  driver copies it from the file with \<open>loadState()?.startedAt\<close>.
\<close>

record ExportCheckpoint =
  format :: string
  requestedCollections :: "string list"
  completed :: "string list"
  startedAt :: "string option"
  lastUpdated :: string
  lastError :: "(string \<times> string) option"

text \<open>
  The state file: absent, present with a content that \<open>JSON.parse\<close> rejects, or present
  with a checkpoint. \<open>loadState\<close> answers \<open>null\<close> in the first two cases.
\<close>

datatype state_file = NoFile | Unreadable | Stored ExportCheckpoint

definition loadState :: "state_file \<Rightarrow> ExportCheckpoint option" where
  "loadState file = (case file of Stored s \<Rightarrow> Some s | _ \<Rightarrow> None)"

text \<open>
  What the driver does to the state file, and when a call of \<open>streamCollections\<close> for
  a root collection has ended (returned or thrown).
\<close>

datatype file_event = Deleted | Saved ExportCheckpoint | Streamed string

definition saveState :: "ExportCheckpoint \<Rightarrow> state_file \<times> file_event list" where
  "saveState s = (Stored s, [Saved s])"

definition clearState :: "state_file \<Rightarrow> state_file \<times> file_event list" where
  "clearState file = (if file = NoFile then (NoFile, []) else (NoFile, [Deleted]))"

record cli_options =
  opt_collections :: string
  opt_format :: string
  opt_resume :: bool
  opt_reset :: bool

definition trim :: "string \<Rightarrow> string" where
  "trim s = rev (dropWhile isSpace (rev (dropWhile isSpace s)))"

definition parseCollections :: "string \<Rightarrow> string list" where
  "parseCollections s = filter (\<lambda>c. c \<noteq> []) (map trim (splitString (CHR 0x2C) s))"

definition message :: "js_error \<Rightarrow> string" where
  "message e =
     (case e of
        TypeError \<Rightarrow> ''transformedData.hasOwnProperty is not a function''
      | Error m \<Rightarrow> m)"

text \<open>
  The compatibility check of a resume request. \<open>sort\<close> is \<open>Array.prototype.sort\<close> without
  a comparator, which orders strings by their code units; it sorts in place, so the
  sorted list of collections is what the driver goes on with, whatever the check says.
  \<open>new Set(savedState.completed || [])\<close> keeps the first occurrence of every name.
  The result is the completed set, whether the run resumes, and the collections to
  export.
\<close>

definition checkResume ::
  "js_runtime \<Rightarrow> state_file \<Rightarrow> string \<Rightarrow> string list \<Rightarrow> string list \<times> bool \<times> string list" where
  "checkResume rt file fmt collectionsToExport =
     (case loadState file of
        None \<Rightarrow> ([], False, collectionsToExport)
      | Some savedState \<Rightarrow>
          (let sameFormat = (format savedState = fmt);
               savedSorted = sort (requestedCollections savedState);
               currentSorted = sort collectionsToExport;
               sameCollections =
                 (JSON_stringify rt (JArr (map JStr savedSorted))
                    = JSON_stringify rt (JArr (map JStr currentSorted)))
           in if sameFormat \<and> sameCollections
              then (foldl insertNew [] (completed savedState), True, currentSorted)
              else ([], False, currentSorted)))"

text \<open>
  The loop over the remaining collections. \<open>run i name\<close> is what the \<open>i\<close>-th call of
  \<open>streamCollections\<close>, for the collection \<open>name\<close>, returns or throws; \<open>now k\<close> is the
  \<open>k\<close>-th reading of the clock. The result is the error that ended the loop, if any,
  the state file and the events.
\<close>

fun exportLoop ::
  "bool \<Rightarrow> (nat \<Rightarrow> string \<Rightarrow> js_error + stream_results) \<Rightarrow> (nat \<Rightarrow> string) \<Rightarrow> nat \<Rightarrow> string list
     \<Rightarrow> ExportCheckpoint \<Rightarrow> state_file \<Rightarrow> file_event list
     \<Rightarrow> js_error option \<times> state_file \<times> file_event list" where
  "exportLoop continue run now i [] currentState file evs = (None, file, evs)"
| "exportLoop continue run now i (collectionName # rest) currentState file evs =
     (case run i collectionName of
        Inr result \<Rightarrow>
          (let currentState' = currentState
                 \<lparr>completed := completed currentState @ [collectionName],
                  lastUpdated := now (i + 2)\<rparr>
           in exportLoop continue run now (i + 1) rest currentState' (fst (saveState currentState'))
                (evs @ [Streamed collectionName] @ snd (saveState currentState')))
      | Inl error \<Rightarrow>
          (let currentState' = currentState
                 \<lparr>lastUpdated := now (i + 2),
                  lastError := Some (collectionName, message error)\<rparr>
           in if continue
              then exportLoop continue run now (i + 1) rest currentState'
                     (fst (saveState currentState'))
                     (evs @ [Streamed collectionName] @ snd (saveState currentState'))
              else (Some error, fst (saveState currentState'),
                    evs @ [Streamed collectionName] @ snd (saveState currentState'))))"

record run_result =
  exitCode :: nat
  stateFile :: state_file
  events :: "file_event list"

text \<open>
  \<open>main\<close>. \<open>firebase\<close> is what \<open>initializeFirebase\<close> gives: the store, or the error it
  throws. Every error that reaches the outer \<open>catch\<close> ends the process with exit code
  \<open>1\<close> and leaves the state file as it is.
\<close>

definition main ::
  "js_runtime \<Rightarrow> export_config \<Rightarrow> cli_options \<Rightarrow> state_file \<Rightarrow> js_error + store
     \<Rightarrow> (nat \<Rightarrow> string \<Rightarrow> js_error + stream_results) \<Rightarrow> (nat \<Rightarrow> string) \<Rightarrow> run_result" where
  "main rt config options file0 firebase run now =
     (let (file, evs) = (if opt_reset options then clearState file0 else (file0, []))
      in case firebase of
           Inl e \<Rightarrow> \<lparr>exitCode = 1, stateFile = file, events = evs\<rparr>
         | Inr st \<Rightarrow>
             (let requested = (if opt_collections options \<noteq> []
                               then parseCollections (opt_collections options)
                               else collections config)
              in case (if requested = [] then listRootCollections st else Inr requested) of
                   Inl e \<Rightarrow> \<lparr>exitCode = 1, stateFile = file, events = evs\<rparr>
                 | Inr collectionsToExport0 \<Rightarrow>
                     (let (completedCollections, resuming, collectionsToExport) =
                            (if opt_resume options
                             then checkResume rt file (opt_format options) collectionsToExport0
                             else ([], False, collectionsToExport0));
                          remainingCollections =
                            filter (\<lambda>c. c \<notin> set completedCollections) collectionsToExport
                      in if remainingCollections = [] \<and> resuming
                         then \<lparr>exitCode = 0, stateFile = fst (clearState file),
                               events = evs @ snd (clearState file)\<rparr>
                         else
                           (let currentState =
                                  \<lparr>format = opt_format options,
                                   requestedCollections = collectionsToExport,
                                   completed = completedCollections,
                                   startedAt = (if resuming
                                                then (case loadState file of
                                                        Some s \<Rightarrow> startedAt s | None \<Rightarrow> None)
                                                else Some (now 0)),
                                   lastUpdated = now 1,
                                   lastError = None\<rparr>
                            in case exportLoop (continueOnError config) run now 0
                                      remainingCollections currentState file evs of
                                 (Some e, file', evs') \<Rightarrow>
                                   \<lparr>exitCode = 1, stateFile = file', events = evs'\<rparr>
                               | (None, file', evs') \<Rightarrow>
                                   \<lparr>exitCode = 0, stateFile = fst (clearState file'),
                                    events = evs' @ snd (clearState file')\<rparr>))))"

section \<open>Auxiliary definitions for the proofs about the driver\<close>

text \<open>
  Reading one escaped character back, as \<open>JSON.parse\<close> does inside a string. It is
  used only to show that \<open>JSON.stringify\<close> maps different arrays of strings to
  different texts.
\<close>

definition hexVal :: "char \<Rightarrow> nat" where
  "hexVal c = (if (of_char c :: nat) < 58 then of_char c - 48 else of_char c - 87)"

fun JSON_unescape :: "string \<Rightarrow> (char \<times> string) option" where
  "JSON_unescape [] = None"
| "JSON_unescape (c # r) =
     (if c = CHR 0x22 then None
      else if c \<noteq> CHR 0x5C then Some (c, r)
      else (case r of
              [] \<Rightarrow> None
            | x # r' \<Rightarrow>
                if x = CHR ''b'' then Some (CHR 0x08, r')
                else if x = CHR ''t'' then Some (CHR 0x09, r')
                else if x = CHR ''n'' then Some (CHR 0x0A, r')
                else if x = CHR ''f'' then Some (CHR 0x0C, r')
                else if x = CHR ''r'' then Some (CHR 0x0D, r')
                else if x = CHR 0x22 then Some (CHR 0x22, r')
                else if x = CHR 0x5C then Some (CHR 0x5C, r')
                else (case r' of
                        z1 # z2 # h1 # h2 # r'' \<Rightarrow>
                          Some (char_of (16 * hexVal h1 + hexVal h2), r'')
                      | _ \<Rightarrow> None)))"

text \<open>
  A state file as an interrupted run of \<open>--collections orders,users\<close> leaves it, with
  \<open>orders\<close> done.
\<close>

definition exampleCheckpoint :: ExportCheckpoint where
  "exampleCheckpoint =
     \<lparr>format = ''both'',
      requestedCollections = [''orders'', ''users''],
      completed = [''orders''],
      startedAt = Some ''2024-01-01T00:00:00.000Z'',
      lastUpdated = ''2024-01-01T00:05:00.000Z'',
      lastError = None\<rparr>"

text \<open>
  A run of \<open>--collections orders,users\<close> with the default configuration and no state
  file, in which the export of \<open>orders\<close> fails and the export of \<open>users\<close> succeeds.
\<close>

definition exampleOptions :: cli_options where
  "exampleOptions =
     \<lparr>opt_collections = ''orders,users'', opt_format = ''both'',
      opt_resume = False, opt_reset = False\<rparr>"

definition exampleRun :: "nat \<Rightarrow> string \<Rightarrow> js_error + stream_results" where
  "exampleRun i collectionName =
     (if collectionName = ''orders''
      then Inl (Error ''PERMISSION_DENIED'')
      else Inr \<lparr>totalDocs = 2, subcollections = 0, jsonFiles = 1, sqlFiles = 1\<rparr>)"

definition exampleClock :: "nat \<Rightarrow> string" where
  "exampleClock k = ''2024-01-01T00:00:0'' @ showNat k @ ''.000Z''"

text \<open>
  Every end of a call of \<open>streamCollections\<close> is followed at once by a write of the state
  file.
\<close>

fun savedAfterEach :: "file_event list \<Rightarrow> bool" where
  "savedAfterEach [] = True"
| "savedAfterEach (Streamed n # Saved s # es) = savedAfterEach es"
| "savedAfterEach (Streamed n # es) = False"
| "savedAfterEach (e # es) = savedAfterEach es"

text \<open>\<open>path.join\<close> on a directory and a file name, for the examples.\<close>

definition examplePathJoin :: "string \<Rightarrow> string \<Rightarrow> string" where
  "examplePathJoin dir file = (if take 2 dir = ''./'' then drop 2 dir else dir) @ ''/'' @ file"

text \<open>
  The two writers of \<open>streamCollections\<close> as the exporters, which give back the path of
  the file they wrote. \<open>clock t\<close> is the reading of the clock when the table \<open>t\<close> is
  written.
\<close>

definition jsonWriterAt ::
  "js_runtime \<Rightarrow> (string \<Rightarrow> string \<Rightarrow> string) \<Rightarrow> export_config \<Rightarrow> (string \<Rightarrow> string) \<Rightarrow> writer" where
  "jsonWriterAt rt pathJoin config clock t ds =
     (case exportToJson rt pathJoin config (clock t) t ds of
        Inl e \<Rightarrow> Inl e
      | Inr (filepath, content) \<Rightarrow> Inr filepath)"

definition sqlWriterAt ::
  "js_runtime \<Rightarrow> (string \<Rightarrow> string \<Rightarrow> string) \<Rightarrow> export_config \<Rightarrow> (string \<Rightarrow> string) \<Rightarrow> writer" where
  "sqlWriterAt rt pathJoin config clock t ds =
     (case exportToSql rt pathJoin config (clock t) t ds of
        Inl e \<Rightarrow> Inl e
      | Inr (filepath, content) \<Rightarrow> Inr filepath)"

section \<open>The widening laws\<close>

lemma indexOf_notin: "x \<notin> set xs \<Longrightarrow> indexOf xs x = -1"
  by (induction xs) (auto simp: Let_def)

lemma indexOf_in: "x \<in> set xs \<Longrightarrow> 0 \<le> indexOf xs x \<and> indexOf xs x < int (length xs)"
  by (induction xs) (auto simp: Let_def)

lemma indexOf_nth: "x \<in> set xs \<Longrightarrow> xs ! nat (indexOf xs x) = x"
proof (induction xs)
  case Nil
  then show ?case by simp
next
  case (Cons y ys)
  show ?case
  proof (cases "y = x")
    case True
    then show ?thesis by simp
  next
    case False
    with Cons.prems have xin: "x \<in> set ys" by simp
    from indexOf_in [OF xin] have nonneg: "0 \<le> indexOf ys x" by simp
    then have "nat (indexOf ys x + 1) = Suc (nat (indexOf ys x))" by simp
    with False xin nonneg Cons.IH show ?thesis by (simp add: Let_def)
  qed
qed

lemma indexOf_inj:
  "x \<in> set xs \<Longrightarrow> y \<in> set xs \<Longrightarrow> indexOf xs x = indexOf xs y \<Longrightarrow> x = y"
  by (metis indexOf_nth)

lemma in_typeHierarchy: "a \<in> set typeHierarchy \<longleftrightarrow> a = ''BIT'' \<or> a = ''INT'' \<or> a = ''BIGINT'' \<or> a = ''FLOAT'' \<or>
      a = ''NVARCHAR(50)'' \<or> a = ''NVARCHAR(100)'' \<or> a = ''NVARCHAR(255)'' \<or> a = ''NVARCHAR(500)'' \<or>
      a = ''NVARCHAR(1000)'' \<or> a = ''NVARCHAR(4000)'' \<or> a = ''NVARCHAR(MAX)'' \<or> a = ''DATETIME2''"
  by (auto simp: typeHierarchy_def)

lemma isNumeric_index:
  "a \<in> set typeHierarchy \<Longrightarrow> isNumericType a \<longleftrightarrow> indexOf typeHierarchy a < 4"
  unfolding in_typeHierarchy
  by (elim disjE; simp add: typeHierarchy_def isNumericType_def)

lemma max_index:
  "a \<in> set typeHierarchy \<Longrightarrow> a = ''NVARCHAR(MAX)'' \<longleftrightarrow> indexOf typeHierarchy a = 10"
  unfolding in_typeHierarchy
  by (elim disjE; simp add: typeHierarchy_def)

lemma max_in: "''NVARCHAR(MAX)'' \<in> set typeHierarchy"
  by (simp add: typeHierarchy_def)

lemma getWiderType_closed:
  "a \<in> set typeHierarchy \<Longrightarrow> b \<in> set typeHierarchy \<Longrightarrow> getWiderType a b \<in> set typeHierarchy"
  by (simp add: getWiderType_def Let_def max_in)

lemma getWiderType_index:
  assumes a: "a \<in> set typeHierarchy" and b: "b \<in> set typeHierarchy"
  shows "indexOf typeHierarchy (getWiderType a b)
       = widenIndex (indexOf typeHierarchy a) (indexOf typeHierarchy b)"
proof -
  have eq: "a = b \<longleftrightarrow> indexOf typeHierarchy a = indexOf typeHierarchy b"
    using indexOf_inj [OF a b] by auto
  have m: "indexOf typeHierarchy ''NVARCHAR(MAX)'' = 10"
    using max_index [OF max_in] by simp
  show ?thesis
    using eq m max_index [OF a] max_index [OF b] isNumeric_index [OF a] isNumeric_index [OF b]
    by (auto simp: getWiderType_def widenIndex_def Let_def)
qed

lemma widenIndex_assoc:
  "widenIndex (widenIndex i j) k = widenIndex i (widenIndex j k)"
  by (auto simp: widenIndex_def max_def)

lemma widenIndex_comm: "widenIndex i j = widenIndex j i"
  by (auto simp: widenIndex_def max_def)

text \<open>
  C1. On the twelve column types of \<open>typeHierarchy\<close>, \<open>getWiderType\<close> is idempotent,
  commutative and associative.
\<close>

theorem getWiderType_lattice_laws:
  assumes a: "a \<in> set typeHierarchy" and b: "b \<in> set typeHierarchy" and c: "c \<in> set typeHierarchy"
  shows "getWiderType a a = a
       \<and> getWiderType a b = getWiderType b a
       \<and> getWiderType (getWiderType a b) c = getWiderType a (getWiderType b c)"
proof (intro conjI)
  show "getWiderType a a = a" by (simp add: getWiderType_def)
  note ab = getWiderType_closed [OF a b] and ba = getWiderType_closed [OF b a]
    and bc = getWiderType_closed [OF b c]
  have "indexOf typeHierarchy (getWiderType a b) = indexOf typeHierarchy (getWiderType b a)"
    by (simp only: getWiderType_index [OF a b] getWiderType_index [OF b a] widenIndex_comm)
  then show "getWiderType a b = getWiderType b a"
    by (rule indexOf_inj [OF ab ba])
  have "indexOf typeHierarchy (getWiderType (getWiderType a b) c)
      = indexOf typeHierarchy (getWiderType a (getWiderType b c))"
    by (simp only: getWiderType_index [OF ab c] getWiderType_index [OF a bc]
        getWiderType_index [OF a b] getWiderType_index [OF b c] widenIndex_assoc)
  then show "getWiderType (getWiderType a b) c = getWiderType a (getWiderType b c)"
    by (rule indexOf_inj [OF getWiderType_closed [OF ab c] getWiderType_closed [OF a bc]])
qed

theorem getWiderType_lattice_laws_witness:
  "''INT'' \<in> set typeHierarchy \<and> ''NVARCHAR(50)'' \<in> set typeHierarchy
   \<and> ''DATETIME2'' \<in> set typeHierarchy
   \<and> getWiderType ''INT'' ''INT'' = ''INT''
   \<and> getWiderType ''INT'' ''NVARCHAR(50)'' = getWiderType ''NVARCHAR(50)'' ''INT''
   \<and> getWiderType (getWiderType ''INT'' ''NVARCHAR(50)'') ''DATETIME2''
     = getWiderType ''INT'' (getWiderType ''NVARCHAR(50)'' ''DATETIME2'')"
proof -
  have a: "''INT'' \<in> set typeHierarchy" by (simp add: typeHierarchy_def)
  have b: "''NVARCHAR(50)'' \<in> set typeHierarchy" by (simp add: typeHierarchy_def)
  have c: "''DATETIME2'' \<in> set typeHierarchy" by (simp add: typeHierarchy_def)
  show ?thesis using a b c getWiderType_lattice_laws [OF a b c] by blast
qed

section \<open>Numeric tiers\<close>

lemma Number_isInteger_iff: "Number_isInteger r \<longleftrightarrow> r \<in> \<int>"
  by (auto simp: Number_isInteger_def Ints_def)

text \<open>
  C9. A finite number that is an integer within the signed 32-bit range is inferred as
  \<open>INT\<close>, an integer outside that range as \<open>BIGINT\<close>, and a number that is not an
  integer as \<open>FLOAT\<close>; the value is passed on unchanged in all three cases.
\<close>

theorem transformValue_numeric_tier:
  "(r \<in> \<int> \<and> -2147483648 \<le> r \<and> r \<le> 2147483647
      \<longrightarrow> transformValue rt (VNumber (Finite r)) = \<lparr>value' = JNum r, sqlType = ''INT''\<rparr>)
   \<and> (r \<in> \<int> \<and> \<not> (-2147483648 \<le> r \<and> r \<le> 2147483647)
      \<longrightarrow> transformValue rt (VNumber (Finite r)) = \<lparr>value' = JNum r, sqlType = ''BIGINT''\<rparr>)
   \<and> (r \<notin> \<int>
      \<longrightarrow> transformValue rt (VNumber (Finite r)) = \<lparr>value' = JNum r, sqlType = ''FLOAT''\<rparr>)"
  by (simp add: Number_isInteger_iff)

theorem transformValue_numeric_tier_witness:
  "((5::real) \<in> \<int> \<and> -2147483648 \<le> (5::real) \<and> (5::real) \<le> 2147483647)
   \<and> transformValue exampleRuntime (VNumber (Finite 5)) = \<lparr>value' = JNum 5, sqlType = ''INT''\<rparr>
   \<and> ((2147483648::real) \<in> \<int> \<and> \<not> (-2147483648 \<le> (2147483648::real) \<and> (2147483648::real) \<le> 2147483647))
   \<and> transformValue exampleRuntime (VNumber (Finite 2147483648)) = \<lparr>value' = JNum 2147483648, sqlType = ''BIGINT''\<rparr>
   \<and> ((61 / 2 :: real) \<notin> \<int>)
   \<and> transformValue exampleRuntime (VNumber (Finite (61 / 2))) = \<lparr>value' = JNum (61 / 2), sqlType = ''FLOAT''\<rparr>"
proof -
  have h: "(61 / 2 :: real) \<notin> \<int>"
  proof -
    have "\<not> Number_isInteger (61 / 2)"
      unfolding Number_isInteger_def by (simp del: of_int_floor_cancel)
    with Number_isInteger_iff [of "61 / 2"] show ?thesis by blast
  qed
  show ?thesis
    using h transformValue_numeric_tier [of 5 exampleRuntime]
      transformValue_numeric_tier [of 2147483648 exampleRuntime]
      transformValue_numeric_tier [of "61 / 2" exampleRuntime]
    by simp
qed

section \<open>Columns of a transformed document\<close>




lemma uniqueFieldName_id [simp]: "uniqueFieldName keys s ''id'' c = ''id''"
  by (subst uniqueFieldName.simps) simp
















text \<open>The equations that evaluate \<open>transformDocument\<close> on a concrete document.\<close>

lemmas eval_simps = transformDocument_def sanitizeFieldName_def trimUnderscores_def
  isWordChar_def isDigit_def hasOwnProperty_def uniqueFieldName.simps showNat.simps
  digitChar_def Let_def Number_isInteger_def


text \<open>
  The one way \<open>transformDocument\<close> does not return: a field stored under the name
  \<open>hasOwnProperty\<close> shadows the method the loop condition calls for the next field.
\<close>

lemma transformDocument_hasOwnProperty_example:
  "transformDocument exampleRuntime ''d1''
     [(''hasOwnProperty'', VNumber (Finite 1)), (''a'', VNumber (Finite 2))] = Inl TypeError"
  by (simp add: eval_simps del: of_int_floor_cancel)

section \<open>Geographic points\<close>

text \<open>
  C7, as stated, fails: the value \<open>transformValue\<close> returns for a geographic point is an
  object with the two coordinates, not a string.
\<close>

theorem transformValue_geopoint_not_string:
  "value' (transformValue exampleRuntime (VGeoPoint 1 2))
     = JObj [(''latitude'', JNum 1), (''longitude'', JNum 2)]
   \<and> typeof (value' (transformValue exampleRuntime (VGeoPoint 1 2))) \<noteq> ''string''"
  by (simp add: typeof_def)

text \<open>
  C7, amended. For a geographic point \<open>transformValue\<close> infers \<open>NVARCHAR(100)\<close> and
  returns the plain object \<open>{latitude, longitude}\<close>; the object becomes a JSON string
  only when the SQL exporter's \<open>escapeSqlValue\<close> serialises it for an \<open>INSERT\<close>.
\<close>

theorem transformValue_geopoint:
  "transformValue rt (VGeoPoint lat lon)
     = \<lparr>value' = JObj [(''latitude'', JNum lat), (''longitude'', JNum lon)],
        sqlType = ''NVARCHAR(100)''\<rparr>
   \<and> typeof (value' (transformValue rt (VGeoPoint lat lon))) = ''object''
   \<and> escapeSqlValue rt (PropValue (value' (transformValue rt (VGeoPoint lat lon))))
     = sqlString (''{'' @ JSON_quote ''latitude'' @ '':'' @ numberToString rt lat @ '',''
                  @ JSON_quote ''longitude'' @ '':'' @ numberToString rt lon @ ''}'')"
  by (simp add: typeof_def escapeSqlValue_def JSON_stringify_def)

section \<open>Path normalization\<close>

lemma splitString_nonempty: "splitString sep s \<noteq> []"
  by (induction s) (auto split: list.splits)

lemma splitString_segment:
  "sep \<notin> set x \<Longrightarrow> splitString sep (x @ sep # r) = x # splitString sep r"
  by (induction x) auto

lemma splitString_last: "sep \<notin> set x \<Longrightarrow> splitString sep x = [x]"
  by (induction x) auto

lemma splitString_join:
  "segs \<noteq> [] \<Longrightarrow> \<forall>s \<in> set segs. sep \<notin> set s \<Longrightarrow> splitString sep (join [sep] segs) = segs"
proof (induction "[sep]" segs rule: join.induct)
  case 1
  then show ?case by simp
next
  case (2 x)
  then show ?case by (simp add: splitString_last)
next
  case (3 x y ys)
  then show ?case by (simp add: splitString_segment)
qed

lemma hasDoubleUnderscore_infix: "hasDoubleUnderscore (x @ ''__'' @ z)"
  by (induction x rule: hasDoubleUnderscore.induct) simp_all

lemma clean_prefix_aux:
  assumes y: "cleanName y" and eq: "x @ ''__'' @ t = y @ r2" and len: "length x < length y"
  shows False
proof -
  from eq len obtain z where yz: "y = x @ z" and z: "z \<noteq> []" and r: "''__'' @ t = z @ r2"
    by (auto simp: append_eq_append_conv2)
  show False
  proof (cases z)
    case Nil
    with z show ?thesis by simp
  next
    case (Cons a z')
    note c1 = this
    show ?thesis
    proof (cases z')
      case Nil
      with c1 r have "z = ''_''" by simp
      with yz y show ?thesis by (simp add: cleanName_def)
    next
      case (Cons b z'')
      with c1 r have "z = ''__'' @ z''" by auto
      with yz have "hasDoubleUnderscore y" using hasDoubleUnderscore_infix [of x z''] by simp
      with y show ?thesis by (simp add: cleanName_def)
    qed
  qed
qed

lemma clean_head:
  assumes x: "cleanName x" and y: "cleanName y"
    and r1: "r1 = [] \<or> (\<exists>t. r1 = ''__'' @ t)" and r2: "r2 = [] \<or> (\<exists>t. r2 = ''__'' @ t)"
    and eq: "x @ r1 = y @ r2"
  shows "x = y \<and> r1 = r2"
proof -
  have "length x = length y"
  proof (rule ccontr)
    assume "length x \<noteq> length y"
    then consider "length x < length y" | "length y < length x" by linarith
    then show False
    proof cases
      case 1
      from 1 eq have "r1 \<noteq> []" by (auto dest: arg_cong [where f = length])
      with r1 obtain t where "r1 = ''__'' @ t" by blast
      with eq have "x @ ''__'' @ t = y @ r2" by simp
      from clean_prefix_aux [OF y this 1] show False .
    next
      case 2
      from 2 eq have "r2 \<noteq> []" by (auto dest: arg_cong [where f = length])
      with r2 obtain t where "r2 = ''__'' @ t" by blast
      with eq have "y @ ''__'' @ t = x @ r1" by simp
      from clean_prefix_aux [OF x this 2] show False .
    qed
  qed
  with eq show ?thesis by simp
qed

lemma join_Cons: "join sep (x # xs) = x @ (if xs = [] then [] else sep @ join sep xs)"
  by (cases xs) simp_all

lemma join_clean_inj:
  "xs \<noteq> [] \<Longrightarrow> ys \<noteq> [] \<Longrightarrow> \<forall>n \<in> set xs. cleanName n \<Longrightarrow> \<forall>n \<in> set ys. cleanName n \<Longrightarrow>
     join ''__'' xs = join ''__'' ys \<Longrightarrow> xs = ys"
proof (induction xs arbitrary: ys)
  case Nil
  then show ?case by simp
next
  case (Cons x xs)
  from Cons.prems(2) obtain y ys' where ys: "ys = y # ys'" by (cases ys) auto
  let ?r1 = "if xs = [] then [] else ''__'' @ join ''__'' xs"
  let ?r2 = "if ys' = [] then [] else ''__'' @ join ''__'' ys'"
  from Cons.prems(5) ys have eq: "x @ ?r1 = y @ ?r2" by (simp only: join_Cons)
  from Cons.prems(3) have cx: "cleanName x" by simp
  from Cons.prems(4) ys have cy: "cleanName y" by simp
  have "x = y \<and> ?r1 = ?r2"
    by (rule clean_head [OF cx cy _ _ eq]) auto
  then have xy: "x = y" and rr: "?r1 = ?r2" by simp_all
  show ?case
  proof (cases "xs = []")
    case True
    with rr have "ys' = []" by (auto split: if_splits)
    with True xy ys show ?thesis by simp
  next
    case False
    with rr have ne: "ys' \<noteq> []" and j: "join ''__'' xs = join ''__'' ys'"
      by (auto split: if_splits)
    from Cons.prems(3) have a: "\<forall>n \<in> set xs. cleanName n" by simp
    from Cons.prems(4) ys have b: "\<forall>n \<in> set ys'. cleanName n" by simp
    from Cons.IH [OF False ne a b j] xy ys show ?thesis by simp
  qed
qed

lemma evenIndexed_nonempty: "xs \<noteq> [] \<Longrightarrow> evenIndexed xs \<noteq> []"
  by (cases xs rule: evenIndexed.cases) auto

lemma normalizeCollectionPath_segments:
  assumes "segs \<noteq> []" "\<forall>s \<in> set segs. CHR ''/'' \<notin> set s"
  shows "normalizeCollectionPath (join ''/'' segs) = join ''__'' (evenIndexed segs)"
  using splitString_join [OF assms] by (simp add: normalizeCollectionPath_def)

text \<open>
  C3, as stated, fails in its second half: the collection \<open>a__b\<close> and the
  subcollection \<open>b\<close> of a document of \<open>a\<close> have different collection-name sequences and
  the same normalized path.
\<close>

theorem normalizeCollectionPath_same_names_counterexample:
  "evenIndexed [''a__b''] \<noteq> evenIndexed [''a'', ''x'', ''b'']
   \<and> normalizeCollectionPath (join ''/'' [''a__b''])
     = normalizeCollectionPath (join ''/'' [''a'', ''x'', ''b''])"
  by (simp add: normalizeCollectionPath_def)

text \<open>
  C3, amended. A path is its segments joined by slashes, collection names at the even
  positions. Paths with the same collection names have the same normalized path; paths
  with different collection names have different normalized paths provided every
  collection name is clean (not empty, no underscore at either end, no two underscores
  in a row).
\<close>

theorem normalizeCollectionPath_collection_names:
  assumes "segs1 \<noteq> []" "segs2 \<noteq> []"
    and "\<forall>s \<in> set segs1 \<union> set segs2. CHR ''/'' \<notin> set s"
  shows "(evenIndexed segs1 = evenIndexed segs2 \<longrightarrow>
            normalizeCollectionPath (join ''/'' segs1) = normalizeCollectionPath (join ''/'' segs2))
       \<and> ((\<forall>n \<in> set (evenIndexed segs1) \<union> set (evenIndexed segs2). cleanName n)
            \<and> evenIndexed segs1 \<noteq> evenIndexed segs2 \<longrightarrow>
            normalizeCollectionPath (join ''/'' segs1) \<noteq> normalizeCollectionPath (join ''/'' segs2))"
proof -
  from assms have n1: "normalizeCollectionPath (join ''/'' segs1) = join ''__'' (evenIndexed segs1)"
    by (intro normalizeCollectionPath_segments) auto
  from assms have n2: "normalizeCollectionPath (join ''/'' segs2) = join ''__'' (evenIndexed segs2)"
    by (intro normalizeCollectionPath_segments) auto
  have "evenIndexed segs1 = evenIndexed segs2"
    if c: "\<forall>n \<in> set (evenIndexed segs1) \<union> set (evenIndexed segs2). cleanName n"
      and j: "join ''__'' (evenIndexed segs1) = join ''__'' (evenIndexed segs2)"
  proof (rule join_clean_inj [OF _ _ _ _ j])
    show "evenIndexed segs1 \<noteq> []" by (rule evenIndexed_nonempty [OF assms(1)])
    show "evenIndexed segs2 \<noteq> []" by (rule evenIndexed_nonempty [OF assms(2)])
    from c show "\<forall>n \<in> set (evenIndexed segs1). cleanName n" by simp
    from c show "\<forall>n \<in> set (evenIndexed segs2). cleanName n" by simp
  qed
  with n1 n2 show ?thesis by auto
qed

theorem normalizeCollectionPath_collection_names_witness:
  "evenIndexed [''users'', ''abc'', ''orders''] = evenIndexed [''users'', ''xyz'', ''orders'']
   \<and> normalizeCollectionPath (join ''/'' [''users'', ''abc'', ''orders''])
     = normalizeCollectionPath (join ''/'' [''users'', ''xyz'', ''orders''])
   \<and> cleanName ''users'' \<and> cleanName ''orders'' \<and> cleanName ''or_ders''
   \<and> evenIndexed [''users'', ''abc'', ''orders''] \<noteq> evenIndexed [''users'', ''abc'', ''or_ders'']
   \<and> normalizeCollectionPath (join ''/'' [''users'', ''abc'', ''orders''])
     \<noteq> normalizeCollectionPath (join ''/'' [''users'', ''abc'', ''or_ders''])"
proof -
  have a: "[''users'', ''abc'', ''orders''] \<noteq> []" and b: "[''users'', ''xyz'', ''orders''] \<noteq> []"
    and c: "[''users'', ''abc'', ''or_ders''] \<noteq> []" by simp_all
  have s1: "\<forall>s \<in> set [''users'', ''abc'', ''orders''] \<union> set [''users'', ''xyz'', ''orders'']. CHR ''/'' \<notin> set s"
    by simp
  have s2: "\<forall>s \<in> set [''users'', ''abc'', ''orders''] \<union> set [''users'', ''abc'', ''or_ders'']. CHR ''/'' \<notin> set s"
    by simp
  have cl: "cleanName ''users''" "cleanName ''orders''" "cleanName ''or_ders''"
    by (simp_all add: cleanName_def)
  then have cl': "\<forall>n \<in> set (evenIndexed [''users'', ''abc'', ''orders''])
                    \<union> set (evenIndexed [''users'', ''abc'', ''or_ders'']). cleanName n"
    by simp
  have e1: "evenIndexed [''users'', ''abc'', ''orders''] = evenIndexed [''users'', ''xyz'', ''orders'']"
    and e2: "evenIndexed [''users'', ''abc'', ''orders''] \<noteq> evenIndexed [''users'', ''abc'', ''or_ders'']"
    by simp_all
  from normalizeCollectionPath_collection_names [OF a b s1] e1
  have same: "normalizeCollectionPath (join ''/'' [''users'', ''abc'', ''orders''])
     = normalizeCollectionPath (join ''/'' [''users'', ''xyz'', ''orders''])" by blast
  from normalizeCollectionPath_collection_names [OF a c s2] cl' e2
  have differ: "normalizeCollectionPath (join ''/'' [''users'', ''abc'', ''orders''])
     \<noteq> normalizeCollectionPath (join ''/'' [''users'', ''abc'', ''or_ders''])" by blast
  from e1 same cl e2 differ show ?thesis by (intro conjI)
qed

section \<open>Pagination\<close>

lemma servePages_after:
  assumes s: "sorted_wrt (<) (map doc_id docs)" and k: "0 < k" "k \<le> length docs"
  shows "filter (\<lambda>x. doc_id (docs ! (k - 1)) < doc_id x) docs = drop k docs"
proof -
  let ?e = "docs ! (k - 1)"
  from k have lt: "k - 1 < length docs" by simp
  from k have dk: "drop (Suc (k - 1)) docs = drop k docs" by simp
  have split: "docs = take (k - 1) docs @ ?e # drop k docs"
    using id_take_nth_drop [OF lt] dk by simp
  from s have "sorted_wrt (<) (map doc_id (take (k - 1) docs @ ?e # drop k docs))"
    using split by simp
  then have before: "\<forall>x \<in> set (take (k - 1) docs). doc_id x < doc_id ?e"
    and after: "\<forall>x \<in> set (drop k docs). doc_id ?e < doc_id x"
    by (auto simp: sorted_wrt_append)
  from before have f1: "filter (\<lambda>x. doc_id ?e < doc_id x) (take (k - 1) docs) = []"
    by (auto simp: filter_empty_conv)
  from after have f2: "filter (\<lambda>x. doc_id ?e < doc_id x) (drop k docs) = drop k docs"
    by (auto simp: filter_id_conv)
  have "filter (\<lambda>x. doc_id ?e < doc_id x) docs
      = filter (\<lambda>x. doc_id ?e < doc_id x) (take (k - 1) docs @ ?e # drop k docs)"
    using split by simp
  also have "\<dots> = drop k docs" using f1 f2 by simp
  finally show ?thesis .
qed

lemma servePages_cursorAt:
  assumes "sorted_wrt (<) (map doc_id docs)" "k \<le> length docs"
  shows "servePages docs (cursorAt docs k) n = Inr (take n (drop k docs))"
proof (cases "k = 0")
  case True
  then show ?thesis by (simp add: servePages_def cursorAt_def)
next
  case False
  with servePages_after [OF assms(1) _ assms(2)] show ?thesis
    by (simp add: servePages_def cursorAt_def)
qed

lemma collectLoop_serves:
  assumes s: "sorted_wrt (<) (map doc_id docs)" and n: "0 < n"
  shows "k \<le> length docs \<Longrightarrow>
    \<exists>qs. collectLoop (servePages docs) n (take k docs) (cursorAt docs k) ps
            = Some (Inr docs, ps @ qs)
        \<and> concat qs = drop k docs \<and> qs \<noteq> []
        \<and> (\<forall>p \<in> set (butlast qs). length p = n) \<and> length (last qs) < n
        \<and> length qs = (length docs - k) div n + 1"
proof (induction "length docs - k" arbitrary: k ps rule: less_induct)
  case less
  let ?snap = "take n (drop k docs)"
  note get = servePages_cursorAt [OF s less.prems, of n]
  consider (empty) "k = length docs" | (short) "k < length docs" "length docs - k < n"
    | (full) "n \<le> length docs - k"
    using less.prems by linarith
  then show ?case
  proof cases
    case empty
    then have "?snap = []" by simp
    with get empty show ?thesis
      by (subst collectLoop.simps) (simp add: n)
  next
    case short
    then have snap: "?snap = drop k docs" and ne: "?snap \<noteq> []" and len: "length ?snap < n"
      by simp_all
    have "take k docs @ drop k docs = docs" by simp
    with get snap ne len short show ?thesis
      by (subst collectLoop.simps) simp
  next
    case full
    with n have ne: "?snap \<noteq> []" and len: "length ?snap = n" by auto
    from full n have k': "k + n \<le> length docs" by linarith
    from full n have dec: "length docs - (k + n) < length docs - k" by simp
    have docs': "take k docs @ ?snap = take (k + n) docs"
      by (simp add: take_add)
    have "last ?snap = ?snap ! (n - 1)" using ne len by (simp add: last_conv_nth)
    also have "\<dots> = docs ! (k + n - 1)" using full n by simp
    finally have cur: "Some (last ?snap) = cursorAt docs (k + n)"
      using n by (simp add: cursorAt_def)
    from less.hyps [OF dec k', of "ps @ [?snap]"] obtain qs where
      run: "collectLoop (servePages docs) n (take (k + n) docs) (cursorAt docs (k + n)) (ps @ [?snap])
              = Some (Inr docs, (ps @ [?snap]) @ qs)"
      and c: "concat qs = drop (k + n) docs" and q: "qs \<noteq> []"
      and b: "\<forall>p \<in> set (butlast qs). length p = n" and l: "length (last qs) < n"
      and cnt: "length qs = (length docs - (k + n)) div n + 1" by blast
    have step: "collectLoop (servePages docs) n (take k docs) (cursorAt docs k) ps
        = collectLoop (servePages docs) n (take (k + n) docs) (cursorAt docs (k + n)) (ps @ [?snap])"
      using get ne len docs' cur by (subst collectLoop.simps) simp
    have "take n (drop k docs) @ drop n (drop k docs) = drop k docs"
      by (rule append_take_drop_id)
    then have "take n (drop k docs) @ drop (k + n) docs = drop k docs"
      by (simp add: add.commute)
    with c have c': "concat (?snap # qs) = drop k docs" by simp
    have cnt': "length (?snap # qs) = (length docs - k) div n + 1"
      using cnt full n by (simp add: le_div_geq)
    from step run c' q b l cnt' len show ?thesis
      by (intro exI [of _ "?snap # qs"]) simp
  qed
qed

text \<open>
  C6. Against a store that serves a finite collection in the order of the document
  identifiers, with a positive page size, \<open>collectDocuments\<close> returns, and returns the
  documents of the collection, each once and in order. The pages it fetched make up
  the collection, all but the last are full and the last is short: the loop stops at
  the first page with fewer than \<open>limit\<close> documents and nowhere else. It fetches
  \<open>length docs div limit + 1\<close> pages; for a collection of exactly \<open>limit\<close> documents
  these are the full page and one empty page.
\<close>

theorem collectDocuments_pagination:
  assumes "sorted_wrt (<) (map doc_id docs)" and "0 < limit"
  shows "\<exists>pages. collectDocuments (servePages docs) limit = Some (Inr docs, pages)
           \<and> concat pages = docs \<and> pages \<noteq> []
           \<and> (\<forall>p \<in> set (butlast pages). length p = limit) \<and> length (last pages) < limit
           \<and> length pages = length docs div limit + 1
           \<and> (length docs = limit \<longrightarrow> pages = [docs, []])"
proof -
  from collectLoop_serves [OF assms, of 0 "[]"] obtain pages where
    run: "collectDocuments (servePages docs) limit = Some (Inr docs, pages)"
    and c: "concat pages = docs" and q: "pages \<noteq> []"
    and b: "\<forall>p \<in> set (butlast pages). length p = limit" and l: "length (last pages) < limit"
    and cnt: "length pages = length docs div limit + 1"
    by (auto simp: collectDocuments_def cursorAt_def)
  have "pages = [docs, []]" if eq: "length docs = limit"
  proof -
    from cnt eq assms(2) have "length pages = 2" by simp
    then obtain p1 p2 where pages: "pages = [p1, p2]"
      by (auto simp: length_Suc_conv numeral_2_eq_2)
    with b have p1: "length p1 = limit" by simp
    from c pages have cat: "p1 @ p2 = docs" by simp
    then have "length p1 + length p2 = length docs" by (metis length_append)
    with p1 eq have "p2 = []" by simp
    with cat pages show ?thesis by simp
  qed
  with run c q b l cnt show ?thesis by blast
qed

theorem collectDocuments_pagination_witness:
  "sorted_wrt (<) (map doc_id
      [\<lparr>doc_id = ''a'', doc_data = [], doc_path = ''users/a''\<rparr>,
       \<lparr>doc_id = ''b'', doc_data = [], doc_path = ''users/b''\<rparr>])
   \<and> (0 :: nat) < 2
   \<and> length [\<lparr>doc_id = ''a'', doc_data = [], doc_path = ''users/a''\<rparr>,
              \<lparr>doc_id = ''b'', doc_data = [], doc_path = ''users/b''\<rparr>] = 2
   \<and> collectDocuments
        (servePages [\<lparr>doc_id = ''a'', doc_data = [], doc_path = ''users/a''\<rparr>,
                     \<lparr>doc_id = ''b'', doc_data = [], doc_path = ''users/b''\<rparr>]) 2
     = Some (Inr [\<lparr>doc_id = ''a'', doc_data = [], doc_path = ''users/a''\<rparr>,
                  \<lparr>doc_id = ''b'', doc_data = [], doc_path = ''users/b''\<rparr>],
             [[\<lparr>doc_id = ''a'', doc_data = [], doc_path = ''users/a''\<rparr>,
               \<lparr>doc_id = ''b'', doc_data = [], doc_path = ''users/b''\<rparr>], []])"
proof -
  let ?docs = "[\<lparr>doc_id = ''a'', doc_data = [], doc_path = ''users/a''\<rparr>,
                \<lparr>doc_id = ''b'', doc_data = [], doc_path = ''users/b''\<rparr>]"
  have s: "sorted_wrt (<) (map doc_id ?docs)" by simp
  have n: "(0 :: nat) < 2" by simp
  from collectDocuments_pagination [OF s n] obtain pages where
    "collectDocuments (servePages ?docs) 2 = Some (Inr ?docs, pages)"
    and "length ?docs = 2 \<longrightarrow> pages = [?docs, []]" by blast
  with s show ?thesis by simp
qed

section \<open>Flush discipline\<close>

lemma jsonWrites_append [simp]: "jsonWrites (xs @ ys) = jsonWrites xs @ jsonWrites ys"
  by (simp add: jsonWrites_def)

lemma sqlWrites_append [simp]: "sqlWrites (xs @ ys) = sqlWrites xs @ sqlWrites ys"
  by (simp add: sqlWrites_def)

lemma writes_simps [simp]:
  "jsonWrites [] = []" "sqlWrites [] = []"
  "jsonWrites (JsonWritten t ds # lg) = (t, ds) # jsonWrites lg"
  "jsonWrites (SqlWritten t ds # lg) = jsonWrites lg"
  "sqlWrites (SqlWritten t ds # lg) = (t, ds) # sqlWrites lg"
  "sqlWrites (JsonWritten t ds # lg) = sqlWrites lg"
  "jsonWrites (Collected p ds # lg) = jsonWrites lg"
  "sqlWrites (Collected p ds # lg) = sqlWrites lg"
  "jsonWrites (Listed p # lg) = jsonWrites lg"
  "sqlWrites (Listed p # lg) = sqlWrites lg"
  by (simp_all add: jsonWrites_def sqlWrites_def)













lemma touched_Collected:
  "touched (lg @ [Collected p ds]) = touched lg @ (if ds = [] then [] else [normalizeCollectionPath p])"
  by (simp add: touched_def)

lemma tableDocs_Collected:
  "tableDocs (lg @ [Collected p ds]) t
     = tableDocs lg t @ (if normalizeCollectionPath p = t then ds else [])"
  by (simp add: tableDocs_def)

lemma set_foldl_insertNew: "set (foldl insertNew acc xs) = set acc \<union> set xs"
  by (induction xs arbitrary: acc) (auto simp: insertNew_def)
























section \<open>Resuming from a checkpoint\<close>

lemma hexVal_hexDigit: "n < 16 \<Longrightarrow> hexVal (hexDigit n) = n"
proof -
  assume n: "n < 16"
  have "\<forall>k \<in> set [0..<16]. hexVal (hexDigit k) = k" by code_simp
  with n show ?thesis by simp
qed

lemma JSON_unescape_escape: "JSON_unescape (JSON_escape c @ r) = Some (c, r)"
proof (cases "(of_char c :: nat) < 32")
  case True
  let ?n = "of_char c :: nat"
  have "?n div 16 < 16" "?n mod 16 < 16" using True by simp_all
  then have h: "hexVal (hexDigit (?n div 16)) = ?n div 16" "hexVal (hexDigit (?n mod 16)) = ?n mod 16"
    by (simp_all add: hexVal_hexDigit)
  have "char_of (16 * (?n div 16) + ?n mod 16) = c" by simp
  with h show ?thesis by (simp add: JSON_escape_def)
next
  case False
  then show ?thesis by (auto simp add: JSON_escape_def)
qed

lemma escapes_inj:
  "concat (map JSON_escape s) @ CHR 0x22 # r = concat (map JSON_escape t) @ CHR 0x22 # r'
     \<Longrightarrow> s = t \<and> r = r'"
proof (induction s arbitrary: t)
  case Nil
  show ?case
  proof (cases t)
    case Nil
    with Nil.prems show ?thesis by simp
  next
    case (Cons c t')
    from Nil.prems Cons
    have "JSON_unescape (CHR 0x22 # r) = JSON_unescape (JSON_escape c @ (concat (map JSON_escape t') @ CHR 0x22 # r'))"
      by simp
    then show ?thesis by (simp only: JSON_unescape_escape) simp
  qed
next
  case (Cons a s)
  show ?case
  proof (cases t)
    case Nil
    from Cons.prems Nil
    have "JSON_unescape (JSON_escape a @ (concat (map JSON_escape s) @ CHR 0x22 # r)) = JSON_unescape (CHR 0x22 # r')"
      by simp
    then show ?thesis by (simp only: JSON_unescape_escape) simp
  next
    case (Cons c t')
    from Cons.prems Cons
    have "JSON_unescape (JSON_escape a @ (concat (map JSON_escape s) @ CHR 0x22 # r))
        = JSON_unescape (JSON_escape c @ (concat (map JSON_escape t') @ CHR 0x22 # r'))"
      by simp
    then have "a = c" and "concat (map JSON_escape s) @ CHR 0x22 # r = concat (map JSON_escape t') @ CHR 0x22 # r'"
      by (simp_all only: JSON_unescape_escape option.inject prod.inject)
    with Cons.IH [of t'] Cons show ?thesis by simp
  qed
qed

lemma JSON_quote_inj: "JSON_quote s @ r = JSON_quote t @ r' \<Longrightarrow> s = t \<and> r = r'"
  using escapes_inj [of s r t r'] by (simp add: JSON_quote_def)

lemma JSON_quote_nonempty: "JSON_quote s \<noteq> []"
  by (simp add: JSON_quote_def)

lemma join_quote_inj:
  "join '','' (map JSON_quote xs) = join '','' (map JSON_quote ys) \<Longrightarrow> xs = ys"
proof (induction xs arbitrary: ys)
  case Nil
  then show ?case by (cases ys) (simp_all add: join_Cons JSON_quote_def)
next
  case (Cons x xs)
  show ?case
  proof (cases ys)
    case Nil
    with Cons.prems show ?thesis by (simp add: join_Cons JSON_quote_def)
  next
    case (Cons y ys')
    let ?r1 = "if xs = [] then [] else '','' @ join '','' (map JSON_quote xs)"
    let ?r2 = "if ys' = [] then [] else '','' @ join '','' (map JSON_quote ys')"
    from Cons.prems Cons have "JSON_quote x @ ?r1 = JSON_quote y @ ?r2"
      by (simp add: join_Cons)
    then have "x = y \<and> ?r1 = ?r2" by (rule JSON_quote_inj)
    then have xy: "x = y" and rr: "?r1 = ?r2" by simp_all
    have "xs = ys'"
    proof (cases "xs = []")
      case True
      with rr show ?thesis by (cases "ys' = []") simp_all
    next
      case False
      with rr have "ys' \<noteq> []" by (cases "ys' = []") simp_all
      with rr False have "join '','' (map JSON_quote xs) = join '','' (map JSON_quote ys')"
        by simp
      then show ?thesis by (rule Cons.IH)
    qed
    with xy Cons show ?thesis by simp
  qed
qed

lemma stringify_strings_inj:
  "JSON_stringify rt (JArr (map JStr xs)) = JSON_stringify rt (JArr (map JStr ys)) \<longleftrightarrow> xs = ys"
proof
  assume eq: "JSON_stringify rt (JArr (map JStr xs)) = JSON_stringify rt (JArr (map JStr ys))"
  have ser: "map (JSON_serialize rt [] []) (map JStr zs) = map JSON_quote zs" for zs
    by simp
  have ne: "zs \<noteq> [] \<Longrightarrow> join '','' (map JSON_quote zs) \<noteq> []" for zs
    by (cases zs) (simp_all add: join_Cons JSON_quote_def)
  show "xs = ys"
  proof (cases "xs = []"; cases "ys = []")
    assume "xs \<noteq> []" "ys \<noteq> []"
    with eq have "join '','' (map JSON_quote xs) = join '','' (map JSON_quote ys)"
      by (simp add: JSON_stringify_def ser comp_def)
    then show ?thesis by (rule join_quote_inj)
  qed (use eq ne in \<open>auto simp add: JSON_stringify_def comp_def\<close>)
qed simp

lemma sort_eq_iff_mset: "sort xs = sort ys \<longleftrightarrow> mset xs = mset ys"
proof
  assume "sort xs = sort ys"
  then have "mset (sort xs) = mset (sort ys)" by simp
  then show "mset xs = mset ys" by simp
next
  assume "mset xs = mset ys"
  then show "sort xs = sort ys"
    by (metis properties_for_sort sorted_sort mset_sort)
qed

text \<open>
  Claim C5, as the code has it. A run with \<open>--resume\<close> that finds a checkpoint reuses its
  completed collections exactly when the checkpoint's format is the current one and the
  checkpoint's requested collections are the current ones up to order, every name as
  often as in the current request (the code compares the two sorted lists). Otherwise
  the run starts with no completed collection. In both cases it goes on with the sorted
  list of the current request, and the completed collections it reuses are the
  checkpoint's, each once.
\<close>

theorem checkResume_compatibility:
  "checkResume rt (Stored saved) fmt current =
     (if format saved = fmt \<and> mset (requestedCollections saved) = mset current
      then (foldl insertNew [] (completed saved), True, sort current)
      else ([], False, sort current))
   \<and> set (foldl insertNew [] (completed saved)) = set (completed saved)
   \<and> checkResume rt NoFile fmt current = ([], False, current)
   \<and> checkResume rt Unreadable fmt current = ([], False, current)"
  by (simp add: checkResume_def loadState_def Let_def stringify_strings_inj sort_eq_iff_mset
        set_foldl_insertNew)

text \<open>
  The request \<open>--collections users,orders,users --resume\<close> names the same set of
  collections as the checkpoint and the same format, and the run starts fresh all the
  same: the completed collection \<open>orders\<close> is not reused.
\<close>

theorem checkResume_duplicate_counterexample:
  "format exampleCheckpoint = ''both''
   \<and> set (requestedCollections exampleCheckpoint) = set [''users'', ''orders'', ''users'']
   \<and> checkResume exampleRuntime (Stored exampleCheckpoint) ''both''
         [''users'', ''orders'', ''users'']
       = ([], False, [''orders'', ''users'', ''users''])"
  by code_simp

text \<open>The same checkpoint is reused when the request is \<open>users,orders\<close>.\<close>

theorem checkResume_compatibility_witness:
  "checkResume exampleRuntime (Stored exampleCheckpoint) ''both'' [''users'', ''orders'']
     = ([''orders''], True, [''orders'', ''users''])"
proof -
  have m: "mset (requestedCollections exampleCheckpoint) = mset [''users'', ''orders'']"
    by (simp add: exampleCheckpoint_def)
  have s: "sort [''users'', ''orders''] = [''orders'', ''users'']"
    by code_simp
  have c: "foldl insertNew [] (completed exampleCheckpoint) = [''orders'']"
    by (simp add: exampleCheckpoint_def insertNew_def)
  have f: "format exampleCheckpoint = ''both''"
    by (simp add: exampleCheckpoint_def)
  from checkResume_compatibility
         [of exampleRuntime exampleCheckpoint "''both''" "[''users'', ''orders'']"]
  show ?thesis by (simp only: m s c f simp_thms if_True)
qed

section \<open>The checkpoint during a run\<close>

text \<open>
  Whenever a call of \<open>streamCollections\<close> for a root collection has ended, with a result
  or with an error, the next thing the driver does to the state file is to write it:
  this holds for every run of \<open>main\<close>.
\<close>

lemma savedAfterEach_append:
  "savedAfterEach xs \<Longrightarrow> savedAfterEach ys \<Longrightarrow> savedAfterEach (xs @ ys)"
  by (induction xs rule: savedAfterEach.induct) simp_all

lemma exportLoop_saves:
  "savedAfterEach evs \<Longrightarrow>
     savedAfterEach (snd (snd (exportLoop c run now i names st sf evs)))"
proof (induction names arbitrary: i st sf evs)
  case Nil
  then show ?case by simp
next
  case (Cons n names)
  have step: "savedAfterEach (evs @ [Streamed n] @ snd (saveState s))" for s
    using Cons.prems by (simp add: saveState_def savedAfterEach_append)
  have next_ok: "savedAfterEach (snd (snd (exportLoop c run now (Suc i) names s
                    (fst (saveState s)) (evs @ [Streamed n] @ snd (saveState s)))))" for s
    by (rule Cons.IH) (rule step)
  show ?case
  proof (cases "run i n")
    case (Inr result)
    then show ?thesis by (simp add: Let_def next_ok del: append.simps append_assoc)
  next
    case (Inl e)
    show ?thesis
    proof (cases c)
      case True
      with Inl next_ok show ?thesis by (simp add: Let_def del: append.simps append_assoc)
    next
      case False
      with Inl step show ?thesis by (simp add: Let_def del: append.simps append_assoc)
    qed
  qed
qed

lemma clearState_saves: "savedAfterEach (snd (clearState sf))"
  by (simp add: clearState_def)

lemma exportLoop_result_saves:
  assumes "savedAfterEach evs"
  shows "savedAfterEach (events
           (case exportLoop c run now i names st sf evs of
              (Some e, sf', evs') \<Rightarrow> \<lparr>exitCode = 1, stateFile = sf', events = evs'\<rparr>
            | (None, sf', evs') \<Rightarrow>
                \<lparr>exitCode = 0, stateFile = fst (clearState sf'),
                 events = evs' @ snd (clearState sf')\<rparr>))"
proof -
  obtain r sf' evs' where res: "exportLoop c run now i names st sf evs = (r, sf', evs')"
    by (cases "exportLoop c run now i names st sf evs") auto
  with exportLoop_saves [OF assms, of c run now i names st sf]
  have "savedAfterEach evs'" by simp
  then show ?thesis
    by (cases r) (simp_all add: res savedAfterEach_append clearState_saves)
qed

lemma main_saves_after_every_collection:
  "savedAfterEach (events (main rt config options file0 firebase run now))"
proof -
  obtain sf evs where init: "(if opt_reset options then clearState file0 else (file0, [])) = (sf, evs)"
    by (cases "if opt_reset options then clearState file0 else (file0, [])") auto
  then have e0: "savedAfterEach evs"
    by (auto simp add: clearState_def split: if_splits)
  show ?thesis
    by (simp add: main_def init Let_def e0 exportLoop_result_saves savedAfterEach_append
          clearState_saves split: sum.split prod.split)
qed


text \<open>
  Claim C4 at a failing input: the checkpoint is to be deleted only when every requested
  collection has been exported, or on \<open>--reset\<close>. With the default configuration
  (\<open>continueOnError\<close> is on), no \<open>--reset\<close> and the request \<open>orders,users\<close>, the export of
  \<open>orders\<close> fails: the driver writes the checkpoint with the error, exports \<open>users\<close>,
  writes the checkpoint again, and then deletes it and ends with exit code \<open>0\<close>, although
  \<open>orders\<close> is not among the completed collections.
\<close>

theorem main_clears_state_after_failure:
  "main exampleRuntime defaultConfig exampleOptions NoFile (Inr exampleStore) exampleRun
     exampleClock
   = \<lparr>exitCode = 0, stateFile = NoFile,
      events =
        [Streamed ''orders'',
         Saved \<lparr>format = ''both'', requestedCollections = [''orders'', ''users''],
                completed = [], startedAt = Some ''2024-01-01T00:00:00.000Z'',
                lastUpdated = ''2024-01-01T00:00:02.000Z'',
                lastError = Some (''orders'', ''PERMISSION_DENIED'')\<rparr>,
         Streamed ''users'',
         Saved \<lparr>format = ''both'', requestedCollections = [''orders'', ''users''],
                completed = [''users''], startedAt = Some ''2024-01-01T00:00:00.000Z'',
                lastUpdated = ''2024-01-01T00:00:03.000Z'',
                lastError = Some (''orders'', ''PERMISSION_DENIED'')\<rparr>,
         Deleted]\<rparr>"
  by code_simp

section \<open>Exporting the same documents again\<close>

lemma exportToSql_splice:
  "(\<exists>e. \<forall>now. exportToSql rt pathJoin config now name docs = Inl e)
   \<or> (\<exists>filepath pre post.
         \<forall>now. exportToSql rt pathJoin config now name docs = Inr (filepath, pre @ now @ post))"
proof (cases "transformAll (sqlDocument rt) docs []")
  case (Inl e)
  then have "\<forall>now. exportToSql rt pathJoin config now name docs = Inl e"
    by (simp add: exportToSql_def Let_def)
  then show ?thesis by blast
next
  case (Inr t)
  define pre where "pre = ''-- Firestore Export: '' @ name @ [CHR 0x0A] @ ''-- Exported at: ''"
  define post where "post = [CHR 0x0A] @ ''-- Document count: '' @ showNat (length docs)
       @ [CHR 0x0A, CHR 0x0A]
       @ (if includeCreateTable (sql config)
          then generateCreateTable config (sanitizeFileName name) (mergeSchemas (map schema t))
          else [])
       @ ''-- Data'' @ [CHR 0x0A]
       @ concat (map (\<lambda>doc. generateInsert rt config (sanitizeFileName name) (data doc)
                              (map fst (mergeSchemas (map schema t))) @ [CHR 0x0A]) t)
       @ ''GO'' @ [CHR 0x0A]"
  have "\<forall>now. exportToSql rt pathJoin config now name docs
          = Inr (pathJoin (sqlOutputDir config) (sanitizeFileName name @ ''.sql''),
                 pre @ now @ post)"
    by (simp add: exportToSql_def Let_def Inr pre_def post_def)
  then show ?thesis by blast
qed

lemma exportToJson_splice:
  "(\<exists>e. \<forall>now. exportToJson rt pathJoin config now name docs = Inl e)
   \<or> (\<exists>filepath pre post.
         \<forall>now. exportToJson rt pathJoin config now name docs
                 = Inr (filepath, pre @ JSON_quote now @ post))"
proof (cases "transformAll (jsonDocument rt) docs []")
  case (Inl e)
  then have "\<forall>now. exportToJson rt pathJoin config now name docs = Inl e"
    by (simp add: exportToJson_def Let_def)
  then show ?thesis by blast
next
  case (Inr t)
  define pre where "pre = ''{'' @ [CHR 0x0A] @ ''  '' @ JSON_quote ''collection'' @ '': ''
       @ JSON_quote name @ '','' @ [CHR 0x0A] @ ''  '' @ JSON_quote ''exportedAt'' @ '': ''"
  define post where "post = '','' @ [CHR 0x0A] @ ''  '' @ JSON_quote ''count'' @ '': ''
       @ numberToString rt (real (length t)) @ '','' @ [CHR 0x0A] @ ''  ''
       @ JSON_quote ''documents'' @ '': '' @ JSON_serialize rt ''  '' ''  '' (JArr t)
       @ [CHR 0x0A] @ ''}''"
  have "\<forall>now. exportToJson rt pathJoin config now name docs
          = Inr (pathJoin (jsonOutputDir config) (sanitizeFileName name @ ''.json''),
                 pre @ JSON_quote now @ post)"
    by (simp add: exportToJson_def Let_def Inr pre_def post_def del: JSON_serialize.simps(4)
          add: JSON_serialize.simps(4) [of rt "''  ''" "''  ''"])
  then show ?thesis by blast
qed

lemma jsonWriterAt_clock:
  "jsonWriterAt rt pathJoin config clock = jsonWriterAt rt pathJoin config clock'"
proof (intro ext)
  fix t ds
  from exportToJson_splice [of rt pathJoin config t ds]
  show "jsonWriterAt rt pathJoin config clock t ds = jsonWriterAt rt pathJoin config clock' t ds"
    by (auto simp add: jsonWriterAt_def)
qed

lemma sqlWriterAt_clock:
  "sqlWriterAt rt pathJoin config clock = sqlWriterAt rt pathJoin config clock'"
proof (intro ext)
  fix t ds
  from exportToSql_splice [of rt pathJoin config t ds]
  show "sqlWriterAt rt pathJoin config clock t ds = sqlWriterAt rt pathJoin config clock' t ds"
    by (auto simp add: sqlWriterAt_def)
qed

text \<open>
  The same documents exported at two different times give different files, JSON and
  SQL: each file carries the time of its export.
\<close>

theorem export_timestamp_counterexample:
  "exportToJson exampleRuntime examplePathJoin defaultConfig ''2024-01-01T00:00:00.000Z''
       ''users'' exampleUsers
     \<noteq> exportToJson exampleRuntime examplePathJoin defaultConfig ''2024-01-01T00:05:00.000Z''
         ''users'' exampleUsers
   \<and> exportToSql exampleRuntime examplePathJoin defaultConfig ''2024-01-01T00:00:00.000Z''
         ''users'' exampleUsers
       \<noteq> exportToSql exampleRuntime examplePathJoin defaultConfig ''2024-01-01T00:05:00.000Z''
           ''users'' exampleUsers"
  by code_simp

text \<open>
  Claim C2, as the code has it. For the same table name and the same documents, each
  exporter either fails with the same error whenever it runs, or writes to the same
  path a text that is the same whenever it runs but for the time of the export, which
  stands at one fixed place (the \<open>exportedAt\<close> member of the JSON file, the
  \<open>Exported at\<close> comment of the SQL file). What the traversal and the flush do (the
  tables, their documents in their order, the counts, the error) does not depend on the
  clock.
\<close>

theorem export_differs_only_in_timestamp:
  "((\<exists>e. \<forall>now. exportToJson rt pathJoin config now name docs = Inl e)
    \<or> (\<exists>filepath pre post.
          \<forall>now. exportToJson rt pathJoin config now name docs
                  = Inr (filepath, pre @ JSON_quote now @ post)))
   \<and> ((\<exists>e. \<forall>now. exportToSql rt pathJoin config now name docs = Inl e)
      \<or> (\<exists>filepath pre post.
            \<forall>now. exportToSql rt pathJoin config now name docs
                    = Inr (filepath, pre @ now @ post)))
   \<and> streamCollections st config (jsonWriterAt rt pathJoin config clock)
         (sqlWriterAt rt pathJoin config clock) collectionName fmt
       = streamCollections st config (jsonWriterAt rt pathJoin config clock')
           (sqlWriterAt rt pathJoin config clock') collectionName fmt"
proof (intro conjI)
  show "streamCollections st config (jsonWriterAt rt pathJoin config clock)
         (sqlWriterAt rt pathJoin config clock) collectionName fmt
       = streamCollections st config (jsonWriterAt rt pathJoin config clock')
           (sqlWriterAt rt pathJoin config clock') collectionName fmt"
    by (simp only: jsonWriterAt_clock [of rt pathJoin config clock clock']
          sqlWriterAt_clock [of rt pathJoin config clock clock'])
qed (rule exportToJson_splice, rule exportToSql_splice)

end
